theory Spec2Isabelle
  imports Main "HOL-Library.Word"
begin

section \<open>JSON values\<close>

text \<open>
  The values the code encrypts, and the values it receives from the two remote services
  and passes on unchecked, are JSON values. An object is the list of its own properties
  in the order in which they are enumerated, each key once.
\<close>

datatype json =
    JNull
  | JBool bool
  | JNum int
  | JStr string
  | JArr "json list"
  | JObj "(string \<times> json) list"

text \<open>JavaScript truthiness of a JSON value.\<close>

definition truthy_json :: "json \<Rightarrow> bool" where
  "truthy_json v =
     (case v of JNull \<Rightarrow> False | JBool b \<Rightarrow> b | JNum n \<Rightarrow> n \<noteq> 0 | JStr t \<Rightarrow> t \<noteq> []
      | JArr _ \<Rightarrow> True | JObj _ \<Rightarrow> True)"

text \<open>
  Reading a named property of a value that is not null; \<open>None\<close> is \<open>undefined\<close>. The
  names the code reads (\<open>token\<close>, \<open>databaseId\<close>, \<open>id\<close>, \<open>properties\<close>, \<open>type\<close>,
  \<open>sectionTitle\<close>, \<open>connections\<close>, \<open>toSection\<close>, \<open>relationship\<close>) are properties of
  no string, number, boolean or array.
\<close>

definition property :: "json \<Rightarrow> string \<Rightarrow> json option" where
  "property v k = (case v of JObj kvs \<Rightarrow> map_of kvs k | _ \<Rightarrow> None)"

text \<open>\<open>v || d\<close>, where \<open>v\<close> may be undefined.\<close>

definition or_else :: "json option \<Rightarrow> json \<Rightarrow> json" where
  "or_else v d = (case v of None \<Rightarrow> d | Some x \<Rightarrow> if truthy_json x then x else d)"

section \<open>Persisted state: chrome.storage.local\<close>

text \<open>
  The extension keeps everything in \<open>chrome.storage.local\<close>. The keys the code uses are
  fixed, so the store is a record with one optional field per key (\<open>None\<close>: the key is
  absent, \<open>undefined\<close> or \<open>null\<close>), and a map for the entries \<open>encrypted_<name>\<close>.
  Session objects come in two shapes: \<open>SessionManager.createSession\<close> writes
  \<open>contents\<close>, \<open>contentCount\<close> and \<open>notionPageId\<close>, the popup's \<open>createNewSession\<close>
  writes none of them, so the three fields are optional. The title of a content entry
  and the page id of a session are stored as the remote services returned them, so
  they are JSON values.
\<close>

record content_item =
  title :: json
  summary :: string
  timestamp :: string

record session =
  session_id :: string
  name :: string
  createdAt :: string
  notionPageId :: "json option"
  contents :: "content_item list option"
  contentCount :: "nat option"

record encrypted_blob =
  iv :: string
  data :: string

record storage =
  setupComplete :: "bool option"
  isLocked :: "bool option"
  activeSessionId :: "string option"
  sessions :: "session list option"
  totalNotes :: "nat option"
  masterKey :: "string option"
  encrypted :: "string \<Rightarrow> encrypted_blob option"

text \<open>JavaScript truthiness of the values the code tests.\<close>

definition truthy_bool :: "bool option \<Rightarrow> bool" where
  "truthy_bool b = (b = Some True)"

definition truthy_string :: "string option \<Rightarrow> bool" where
  "truthy_string s = (case s of None \<Rightarrow> False | Some t \<Rightarrow> t \<noteq> [])"

section \<open>SessionManager\<close>

text \<open>\<open>Array.prototype.findIndex\<close>: the index of the first element satisfying the test.\<close>

fun findIndex :: "('a \<Rightarrow> bool) \<Rightarrow> 'a list \<Rightarrow> nat option" where
  "findIndex P [] = None"
| "findIndex P (x # xs) =
     (if P x then Some 0 else (case findIndex P xs of None \<Rightarrow> None | Some i \<Rightarrow> Some (Suc i)))"

text \<open>\<open>xs.slice(-n)\<close>: the last \<open>n\<close> elements (all of them when there are fewer).\<close>

definition slice_last :: "nat \<Rightarrow> 'a list \<Rightarrow> 'a list" where
  "slice_last n xs = drop (length xs - n) xs"

definition getSessions :: "'a storage_scheme \<Rightarrow> session list" where
  "getSessions st = (case sessions st of None \<Rightarrow> [] | Some xs \<Rightarrow> xs)"

definition getActiveSession :: "'a storage_scheme \<Rightarrow> session option" where
  "getActiveSession st =
     (case activeSessionId st of
        None \<Rightarrow> None
      | Some a \<Rightarrow> find (\<lambda>s. session_id s = a) (getSessions st))"

text \<open>
  \<open>createSession\<close>: the id comes from \<open>CryptoUtils.generateId\<close> (clock and random bits)
  and the creation time from the clock; both are inputs here.
\<close>

definition createSession ::
  "string \<Rightarrow> string \<Rightarrow> string \<Rightarrow> 'a storage_scheme \<Rightarrow> session \<times> 'a storage_scheme" where
  "createSession new_id nm now st =
     (let newSession = \<lparr>session_id = new_id, name = nm, createdAt = now,
                         notionPageId = None, contents = Some [], contentCount = Some 0\<rparr>
      in (newSession,
          st\<lparr>sessions := Some (newSession # getSessions st), activeSessionId := Some new_id\<rparr>))"

text \<open>
  \<open>addContentToSession\<close>: \<open>sessions.find\<close> yields a reference to the first session with
  the id, which is then mutated in place; the model updates the list at that index.
  \<open>now\<close> is \<open>new Date().toISOString()\<close>.
\<close>

definition addContentToSession ::
  "string \<Rightarrow> json \<Rightarrow> string \<Rightarrow> string \<Rightarrow> 'a storage_scheme \<Rightarrow>
   session option \<times> 'a storage_scheme" where
  "addContentToSession sessionId ttl summ now st =
     (let all_sessions = getSessions st in
      case findIndex (\<lambda>s. session_id s = sessionId) all_sessions of
        None \<Rightarrow> (None, st)
      | Some i \<Rightarrow>
          (let s0 = all_sessions ! i;
               cs0 = (case contents s0 of None \<Rightarrow> [] | Some cs \<Rightarrow> cs);
               cs1 = cs0 @ [\<lparr>title = ttl, summary = take 300 summ, timestamp = now\<rparr>];
               cnt = (case contentCount s0 of None \<Rightarrow> 0 | Some n \<Rightarrow> n) + 1;
               cs2 = (if length cs1 > 30 then slice_last 30 cs1 else cs1);
               s1 = s0\<lparr>contents := Some cs2, contentCount := Some cnt\<rparr>;
               st1 = st\<lparr>sessions := Some (all_sessions[i := s1])\<rparr>;
               st2 = st1\<lparr>totalNotes := Some ((case totalNotes st1 of None \<Rightarrow> 0 | Some n \<Rightarrow> n) + 1)\<rparr>
           in (Some s1, st2)))"

definition updateSession ::
  "string \<Rightarrow> (session \<Rightarrow> session) \<Rightarrow> 'a storage_scheme \<Rightarrow>
   session option \<times> 'a storage_scheme" where
  "updateSession sessionId updates st =
     (let all_sessions = getSessions st in
      case findIndex (\<lambda>s. session_id s = sessionId) all_sessions of
        None \<Rightarrow> (None, st)
      | Some i \<Rightarrow>
          (let s1 = updates (all_sessions ! i)
           in (Some s1, st\<lparr>sessions := Some (all_sessions[i := s1])\<rparr>)))"

record session_context =
  sessionName :: string
  ctx_notionPageId :: "json option"
  ctx_contents :: "content_item list"
  ctx_contentCount :: nat

definition getSessionContext :: "string \<Rightarrow> 'a storage_scheme \<Rightarrow> session_context" where
  "getSessionContext sessionId st =
     (case find (\<lambda>s. session_id s = sessionId) (getSessions st) of
        Some s \<Rightarrow>
          \<lparr>sessionName = name s,
           ctx_notionPageId =
             (case notionPageId s of
                None \<Rightarrow> None
              | Some p \<Rightarrow> if truthy_json p then Some p else None),
           ctx_contents = (case contents s of None \<Rightarrow> [] | Some cs \<Rightarrow> cs),
           ctx_contentCount = (case contentCount s of None \<Rightarrow> 0 | Some n \<Rightarrow> n)\<rparr>
      | None \<Rightarrow>
          \<lparr>sessionName = ''Default'', ctx_notionPageId = None, ctx_contents = [],
           ctx_contentCount = 0\<rparr>)"

text \<open>
  A sequence of \<open>addContentToSession\<close> calls, each with its own session id, title,
  summary and clock reading, threaded through the store.
\<close>

fun addContents ::
  "(string \<times> json \<times> string \<times> string) list \<Rightarrow> 'a storage_scheme \<Rightarrow> 'a storage_scheme" where
  "addContents [] st = st"
| "addContents ((sid, ttl, summ, now) # calls) st =
     addContents calls (snd (addContentToSession sid ttl summ now st))"

text \<open>The entries a call sequence appends to the session \<open>sid\<close>, in call order.\<close>

definition entries_for ::
  "string \<Rightarrow> (string \<times> json \<times> string \<times> string) list \<Rightarrow> content_item list" where
  "entries_for sid calls =
     map (\<lambda>(i, ttl, summ, now). \<lparr>title = ttl, summary = take 300 summ, timestamp = now\<rparr>)
       (filter (\<lambda>c. fst c = sid) calls)"


section \<open>Bytes, strings and the platform's codecs\<close>

text \<open>
  A \<open>Uint8Array\<close> is a list of bytes. A JavaScript string is a sequence of 16-bit code
  units; the strings that reach \<open>TextEncoder\<close> (passwords, JSON text) are modelled as
  such, the base64 text the code stores is ASCII and is a \<open>string\<close>.
\<close>

type_synonym bytes = "8 word list"
type_synonym utf16 = "16 word list"

datatype error =
    InvalidCharacterError
  | DataError
  | OperationError
  | SyntaxError
  | TypeError
  | Error string

subsection \<open>TextEncoder\<close>

text \<open>
  \<open>new TextEncoder().encode(s)\<close>: the code units are read as UTF-16 (a high surrogate
  followed by a low one is one scalar value, any other surrogate becomes U+FFFD), and
  the scalar values are written in UTF-8.
\<close>

definition is_high :: "16 word \<Rightarrow> bool" where
  "is_high u = (0xD800 \<le> u \<and> u \<le> 0xDBFF)"

definition is_low :: "16 word \<Rightarrow> bool" where
  "is_low u = (0xDC00 \<le> u \<and> u \<le> 0xDFFF)"

fun scalars :: "utf16 \<Rightarrow> nat list" where
  "scalars [] = []"
| "scalars [u] = [if is_high u \<or> is_low u then 0xFFFD else unat u]"
| "scalars (u # v # us) =
     (if is_high u \<and> is_low v
      then (0x10000 + (unat u - 0xD800) * 0x400 + (unat v - 0xDC00)) # scalars us
      else (if is_high u \<or> is_low u then 0xFFFD else unat u) # scalars (v # us))"

definition utf8 :: "nat \<Rightarrow> bytes" where
  "utf8 c =
     (if c < 0x80 then [of_nat c]
      else if c < 0x800 then [of_nat (0xC0 + c div 64), of_nat (0x80 + c mod 64)]
      else if c < 0x10000 then
        [of_nat (0xE0 + c div 4096), of_nat (0x80 + c div 64 mod 64), of_nat (0x80 + c mod 64)]
      else
        [of_nat (0xF0 + c div 262144), of_nat (0x80 + c div 4096 mod 64),
         of_nat (0x80 + c div 64 mod 64), of_nat (0x80 + c mod 64)])"

definition TextEncoder_encode :: "utf16 \<Rightarrow> bytes" where
  "TextEncoder_encode s = concat (map utf8 (scalars s))"

subsection \<open>btoa and atob\<close>

definition b64chars :: string where
  "b64chars = ''ABCDEFGHIJKLMNOPQRSTUVWXYZabcdefghijklmnopqrstuvwxyz0123456789+/''"

definition b64char :: "nat \<Rightarrow> char" where
  "b64char n = b64chars ! n"

fun index_of :: "'a \<Rightarrow> 'a list \<Rightarrow> nat option" where
  "index_of c [] = None"
| "index_of c (x # xs) =
     (if c = x then Some 0 else (case index_of c xs of None \<Rightarrow> None | Some i \<Rightarrow> Some (Suc i)))"

text \<open>The 6-bit groups of a byte sequence, the last group filled with zero bits.\<close>

fun sextets :: "nat list \<Rightarrow> nat list" where
  "sextets [] = []"
| "sextets [a] = [a div 4, a mod 4 * 16]"
| "sextets [a, b] = [a div 4, a mod 4 * 16 + b div 16, b mod 16 * 4]"
| "sextets (a # b # c # r) =
     [a div 4, a mod 4 * 16 + b div 16, b mod 16 * 4 + c div 64, c mod 64] @ sextets r"

text \<open>
  Forgiving base64 decoding of 6-bit groups: every four groups give three bytes; of a
  last group of three or two, the bits beyond the whole bytes are dropped.
\<close>

fun octets :: "nat list \<Rightarrow> nat list" where
  "octets (w # x # y # z # r) =
     [w * 4 + x div 16, x mod 16 * 16 + y div 4, y mod 4 * 64 + z] @ octets r"
| "octets [w, x, y] = [w * 4 + x div 16, x mod 16 * 16 + y div 4]"
| "octets [w, x] = [w * 4 + x div 16]"
| "octets [w] = []"
| "octets [] = []"

text \<open>
  \<open>arrayBufferToBase64\<close> builds the binary string \<open>String.fromCharCode(bytes[i])\<close> and
  calls \<open>btoa\<close>. Every code unit of that string is a byte, so \<open>btoa\<close> cannot throw here
  and the result is the padded base64 text of the bytes.
\<close>

definition arrayBufferToBase64 :: "bytes \<Rightarrow> string" where
  "arrayBufferToBase64 buffer =
     map b64char (sextets (map unat buffer)) @
     replicate ((3 - length buffer mod 3) mod 3) (CHR ''='')"

definition ascii_whitespace :: "char \<Rightarrow> bool" where
  "ascii_whitespace c = (c \<in> set [CHR 0x09, CHR 0x0A, CHR 0x0C, CHR 0x0D, CHR 0x20])"

definition strip_padding :: "string \<Rightarrow> string" where
  "strip_padding d =
     (let r = rev d in
      if take 2 r = [CHR ''='', CHR ''=''] then rev (drop 2 r)
      else if take 1 r = [CHR ''=''] then rev (drop 1 r)
      else d)"

fun those_indices :: "string \<Rightarrow> nat list option" where
  "those_indices [] = Some []"
| "those_indices (c # cs) =
     (case index_of c b64chars of
        None \<Rightarrow> None
      | Some i \<Rightarrow> (case those_indices cs of None \<Rightarrow> None | Some r \<Rightarrow> Some (i # r)))"

text \<open>
  \<open>atob\<close>: ASCII whitespace is removed; when the length is then a multiple of four, one
  or two trailing \<open>=\<close> are removed; a length of one more than a multiple of four or a
  character outside the alphabet throws \<open>InvalidCharacterError\<close>. The result is a binary
  string, given here by its code units as numbers below 256.
\<close>

definition atob :: "string \<Rightarrow> error + nat list" where
  "atob s =
     (let d = filter (\<lambda>c. \<not> ascii_whitespace c) s;
          d' = (if length d mod 4 = 0 then strip_padding d else d)
      in if length d' mod 4 = 1 then Inl InvalidCharacterError
         else (case those_indices d' of
                 None \<Rightarrow> Inl InvalidCharacterError
               | Some vs \<Rightarrow> Inr (octets vs)))"

text \<open>\<open>base64ToArrayBuffer\<close>: \<open>bytes[i] = binary.charCodeAt(i)\<close> on the result of \<open>atob\<close>.\<close>

definition base64ToArrayBuffer :: "string \<Rightarrow> error + bytes" where
  "base64ToArrayBuffer base64 =
     (case atob base64 of Inl e \<Rightarrow> Inl e | Inr binary \<Rightarrow> Inr (map of_nat binary))"


section \<open>CryptoUtils\<close>

text \<open>
  \<open>JSON.stringify\<close>, \<open>JSON.parse\<close>, \<open>TextDecoder.decode\<close> and the WebCrypto
  operations are the browser's, not the repository's: the model takes them as a
  parameter. \<open>aes_gcm_decrypt\<close> yields \<open>None\<close> where \<open>crypto.subtle.decrypt\<close> rejects
  (authentication failure, bad IV or key) and \<open>json_parse\<close> where \<open>JSON.parse\<close> throws.
  \<open>pbkdf2\<close> takes the password bytes, the salt, the iteration count and the number of
  bits, the hash being SHA-256. The last two are the language's conversions of a value
  that is not a string to a string (in a template literal) and its comparison \<open>v > 0\<close>
  for a value that is not a number; on an object whose own \<open>toString\<close> and \<open>valueOf\<close>
  properties are not functions they throw a \<open>TypeError\<close>.
\<close>

record platform =
  json_stringify :: "json \<Rightarrow> utf16"
  json_parse :: "utf16 \<Rightarrow> json option"
  TextDecoder_decode :: "bytes \<Rightarrow> utf16"
  aes_gcm_encrypt :: "bytes \<Rightarrow> bytes \<Rightarrow> bytes \<Rightarrow> bytes"
  aes_gcm_decrypt :: "bytes \<Rightarrow> bytes \<Rightarrow> bytes \<Rightarrow> bytes option"
  pbkdf2 :: "bytes \<Rightarrow> bytes \<Rightarrow> nat \<Rightarrow> nat \<Rightarrow> bytes"
  to_text :: "json \<Rightarrow> error + string"
  gt_zero :: "json \<Rightarrow> error + bool"

text \<open>
  The state of the extension: the persisted store and the two fields of the
  \<open>CryptoUtils\<close> object. A \<open>CryptoKey\<close> is its raw key material. When calls run one
  after the other, \<open>_keyPromise\<close> is null between calls unless the key creation
  rejected: the line that resets it is then never reached and the rejected promise stays.
\<close>

record world = storage +
  encryptionKey :: "bytes option"
  keyPromise :: "error option"

text \<open>\<open>crypto.subtle.importKey('raw', keyData, AES-GCM)\<close>: the key is 128, 192 or 256 bits.\<close>

definition importKey :: "bytes \<Rightarrow> error + bytes" where
  "importKey keyData =
     (if length keyData \<in> {16, 24, 32} then Inr keyData else Inl DataError)"

text \<open>
  \<open>getOrCreateMasterKey\<close>; \<open>gen_key\<close> is the key \<open>crypto.subtle.generateKey\<close> returns
  if it is called.
\<close>

definition getOrCreateMasterKey :: "bytes \<Rightarrow> world \<Rightarrow> (error + bytes) \<times> world" where
  "getOrCreateMasterKey gen_key w =
     (case encryptionKey w of
        Some k \<Rightarrow> (Inr k, w)
      | None \<Rightarrow>
          (case keyPromise w of
             Some e \<Rightarrow> (Inl e, w)
           | None \<Rightarrow>
               (case (if truthy_string (masterKey w) then masterKey w else None) of
                  Some stored \<Rightarrow>
                    (case base64ToArrayBuffer stored of
                       Inl e \<Rightarrow> (Inl e, w\<lparr>keyPromise := Some e\<rparr>)
                     | Inr keyData \<Rightarrow>
                         (case importKey keyData of
                            Inl e \<Rightarrow> (Inl e, w\<lparr>keyPromise := Some e\<rparr>)
                          | Inr k \<Rightarrow> (Inr k, w\<lparr>encryptionKey := Some k\<rparr>)))
                | None \<Rightarrow>
                    (Inr gen_key,
                     w\<lparr>encryptionKey := Some gen_key,
                       masterKey := Some (arrayBufferToBase64 gen_key)\<rparr>))))"

definition clearKey :: "world \<Rightarrow> world" where
  "clearKey w = w\<lparr>encryptionKey := None\<rparr>"

text \<open>\<open>encrypt\<close>; \<open>iv_draw\<close> is what \<open>crypto.getRandomValues(new Uint8Array(12))\<close> returns.\<close>

definition encrypt ::
  "platform \<Rightarrow> bytes \<Rightarrow> bytes \<Rightarrow> json \<Rightarrow> world \<Rightarrow> (error + encrypted_blob) \<times> world" where
  "encrypt P gen_key iv_draw v w =
     (case getOrCreateMasterKey gen_key w of
        (Inl e, w1) \<Rightarrow> (Inl e, w1)
      | (Inr key, w1) \<Rightarrow>
          (let dataBuffer = TextEncoder_encode (json_stringify P v);
               encryptedBuffer = aes_gcm_encrypt P key iv_draw dataBuffer
           in (Inr \<lparr>iv = arrayBufferToBase64 iv_draw,
                     data = arrayBufferToBase64 encryptedBuffer\<rparr>, w1)))"

definition decrypt ::
  "platform \<Rightarrow> bytes \<Rightarrow> encrypted_blob \<Rightarrow> world \<Rightarrow> (error + json) \<times> world" where
  "decrypt P gen_key encryptedData w =
     (case getOrCreateMasterKey gen_key w of
        (Inl e, w1) \<Rightarrow> (Inl e, w1)
      | (Inr key, w1) \<Rightarrow>
          (case base64ToArrayBuffer (iv encryptedData) of
             Inl e \<Rightarrow> (Inl e, w1)
           | Inr iv_bytes \<Rightarrow>
               (case base64ToArrayBuffer (data encryptedData) of
                  Inl e \<Rightarrow> (Inl e, w1)
                | Inr data_bytes \<Rightarrow>
                    (case aes_gcm_decrypt P key iv_bytes data_bytes of
                       None \<Rightarrow> (Inl OperationError, w1)
                     | Some decryptedBuffer \<Rightarrow>
                         (case json_parse P (TextDecoder_decode P decryptedBuffer) of
                            None \<Rightarrow> (Inl SyntaxError, w1)
                          | Some v \<Rightarrow> (Inr v, w1))))))"

record password_record =
  salt :: string
  hash :: string

text \<open>\<open>hashPassword\<close>; \<open>salt_draw\<close> is what \<open>generateSalt\<close> returns.\<close>

definition hashPassword :: "platform \<Rightarrow> bytes \<Rightarrow> utf16 \<Rightarrow> password_record" where
  "hashPassword P salt_draw password =
     (let derivedBits = pbkdf2 P (TextEncoder_encode password) salt_draw 100000 256
      in \<lparr>salt = arrayBufferToBase64 salt_draw, hash = arrayBufferToBase64 derivedBits\<rparr>)"

definition verifyPassword :: "platform \<Rightarrow> utf16 \<Rightarrow> password_record \<Rightarrow> error + bool" where
  "verifyPassword P password storedHash =
     (case base64ToArrayBuffer (salt storedHash) of
        Inl e \<Rightarrow> Inl e
      | Inr salt_bytes \<Rightarrow>
          (let derivedBits = pbkdf2 P (TextEncoder_encode password) salt_bytes 100000 256;
               computedHash = arrayBufferToBase64 derivedBits
           in Inr (computedHash = hash storedHash)))"

section \<open>StorageManager: encrypted entries\<close>

text \<open>
  \<open>getEncrypted\<close> reads the entry \<open>encrypted_<key>\<close>; null is \<open>JNull\<close>. The \<open>catch\<close>
  block logs the error and returns null.
\<close>

definition getEncrypted :: "platform \<Rightarrow> bytes \<Rightarrow> string \<Rightarrow> world \<Rightarrow> (error + json) \<times> world" where
  "getEncrypted P gen_key key w =
     (case encrypted w key of
        None \<Rightarrow> (Inr JNull, w)
      | Some encryptedData \<Rightarrow>
          (case decrypt P gen_key encryptedData w of
             (Inl e, w1) \<Rightarrow> (Inr JNull, w1)
           | (Inr v, w1) \<Rightarrow> (Inr v, w1)))"

definition setEncrypted ::
  "platform \<Rightarrow> bytes \<Rightarrow> bytes \<Rightarrow> string \<Rightarrow> json \<Rightarrow> world \<Rightarrow> (error + unit) \<times> world" where
  "setEncrypted P gen_key iv_draw key v w =
     (case encrypt P gen_key iv_draw v w of
        (Inl e, w1) \<Rightarrow> (Inl e, w1)
      | (Inr encryptedData, w1) \<Rightarrow>
          (Inr (), w1\<lparr>encrypted := (encrypted w1)(key := Some encryptedData)\<rparr>))"



section \<open>The capture pipeline (background.js)\<close>

subsection \<open>The two remote services\<close>

text \<open>
  What a \<open>fetch\<close> does is the environment's choice: the call or the reading of the body
  rejects with an error, the response is not ok and carries a message (the remote
  message, or else the status text), or it is ok and carries a body. The bodies are
  JSON values and the code checks none of them.
\<close>

datatype 'a reply =
    Rejected error
  | NotOk string
  | Ok 'a

text \<open>
  The body of an ok response of the structuring service, as far as the code reads it:
  \<open>Unusable\<close> when \<open>data.choices[0]?.message?.content\<close> or \<open>JSON.parse(content)\<close> throws,
  else the value \<open>JSON.parse\<close> returns, whatever it is.
\<close>

datatype groq_content =
    Unusable
  | Parsed json

text \<open>
  What \<open>processWithGroq\<close> returns: \<open>parsed.sectionTitle || 'New Section'\<close> and
  \<open>parsed.connections || []\<close> are values of any kind.
\<close>

record structured =
  sectionTitle :: json
  connections :: json

text \<open>
  The blocks sent to the document service. A heading carries the section title as it
  is, a toggle block the connection texts (each given by the two texts it joins), a
  source line the host name and the URL.
\<close>

datatype block =
    TableOfContents
  | Divider
  | Heading2 json
  | Paragraph string
  | Toggle "(string \<times> string) list"
  | SourceLine string string

text \<open>
  The requests the pipeline can make: the chat completion (the key in the
  authorization header, the session name, title and summary of the previous contents
  the prompt lists, the text prefix), the database schema (database id in the URL,
  token), the page creation (token, database id in the body, title property, page
  title, children) and the append to a page (page id in the URL, token, children).
\<close>

datatype request =
    GroqChat string string "(string \<times> string) list" string
  | NotionGetDatabase string string
  | NotionCreatePage string "json option" string string "block list"
  | NotionAppendChildren string string "block list"

datatype event =
    Notification string string
  | ErrorNotification error
  | Fetch request
  | MAPPING_COMPLETE
  | MAPPING_ERROR error

text \<open>
  The environment of one capture: the replies of the services, \<open>new URL(u).hostname\<close>
  (\<open>None\<close>: the URL is invalid and the constructor throws), the key
  \<open>generateKey\<close> would return, and the clock.
\<close>

record env =
  groq_reply :: "groq_content reply"
  schema_reply :: "json reply"
  create_reply :: "json reply"
  append_reply :: "unit reply"
  hostname :: "string \<Rightarrow> string option"
  generated_key :: bytes
  clock :: string

subsection \<open>String helpers\<close>

text \<open>What the regular expression \<open>\s\<close> matches, among 8-bit code units.\<close>

definition is_space :: "char \<Rightarrow> bool" where
  "is_space c = (c \<in> set [CHR 0x09, CHR 0x0A, CHR 0x0B, CHR 0x0C, CHR 0x0D, CHR 0x20, CHR 0xA0])"

text \<open>
  \<open>s.split(/\s+/)\<close>: the fields between maximal runs of whitespace; a run at the start
  or at the end leaves an empty field there.
\<close>

fun split_ws :: "string \<Rightarrow> string list" where
  "split_ws [] = [[]]"
| "split_ws [c] = (if is_space c then [[], []] else [[c]])"
| "split_ws (c # d # cs) =
     (if is_space c then (if is_space d then split_ws (d # cs) else [] # split_ws (d # cs))
      else (case split_ws (d # cs) of f # fs \<Rightarrow> (c # f) # fs | [] \<Rightarrow> [[c]]))"

text \<open>\<open>xs.join(' ')\<close>.\<close>

fun join_space :: "string list \<Rightarrow> string" where
  "join_space [] = []"
| "join_space [x] = x"
| "join_space (x # y # ys) = x @ '' '' @ join_space (y # ys)"

text \<open>
  \<open>s.split(/\n\n+/)\<close>: the fields between maximal runs of two or more line feeds. The
  flag says that the scan is inside such a run.
\<close>

fun split_blank :: "bool \<Rightarrow> string \<Rightarrow> string list" where
  "split_blank b [] = [[]]"
| "split_blank True (c # cs) =
     (if c = CHR 0x0A then split_blank True cs
      else (case split_blank False cs of f # fs \<Rightarrow> (c # f) # fs | [] \<Rightarrow> [[c]]))"
| "split_blank False [c] = [[c]]"
| "split_blank False (c # d # cs) =
     (if c = CHR 0x0A \<and> d = CHR 0x0A then [] # split_blank True cs
      else (case split_blank False (d # cs) of f # fs \<Rightarrow> (c # f) # fs | [] \<Rightarrow> [[c]]))"

definition trim :: "string \<Rightarrow> string" where
  "trim s = rev (dropWhile is_space (rev (dropWhile is_space s)))"

text \<open>The decimal digits of a number: the name of an array index.\<close>

fun decimal :: "nat \<Rightarrow> string" where
  "decimal n =
     (if n < 10 then [char_of (48 + n)] else decimal (n div 10) @ [char_of (48 + n mod 10)])"

declare decimal.simps [simp del]

subsection \<open>Conversions of values\<close>

text \<open>
  A value placed in a template literal is converted to a string: a string is itself
  and undefined is the text \<open>undefined\<close>; the conversion of every other value is the
  platform's and may throw. Likewise the comparison \<open>v > 0\<close>, where undefined is not
  greater than zero.
\<close>

definition text_of :: "platform \<Rightarrow> json \<Rightarrow> error + string" where
  "text_of P v = (case v of JStr s \<Rightarrow> Inr s | _ \<Rightarrow> to_text P v)"

definition text_of_opt :: "platform \<Rightarrow> json option \<Rightarrow> error + string" where
  "text_of_opt P v = (case v of None \<Rightarrow> Inr ''undefined'' | Some x \<Rightarrow> text_of P x)"

definition positive :: "platform \<Rightarrow> json option \<Rightarrow> error + bool" where
  "positive P v =
     (case v of None \<Rightarrow> Inr False | Some (JNum n) \<Rightarrow> Inr (0 < n) | Some x \<Rightarrow> gt_zero P x)"

subsection \<open>processWithGroq\<close>

text \<open>
  The prompt is built before the \<open>try\<close> block: it lists the previous contents of the
  session, converting each stored title to a string, and an error thrown there leaves
  \<open>processWithGroq\<close>.
\<close>

fun previous_content :: "platform \<Rightarrow> content_item list \<Rightarrow> error + (string \<times> string) list" where
  "previous_content P [] = Inr []"
| "previous_content P (item # items) =
     (case text_of P (title item) of
        Inl e \<Rightarrow> Inl e
      | Inr t \<Rightarrow>
          (case previous_content P items of
             Inl e \<Rightarrow> Inl e
           | Inr r \<Rightarrow> Inr ((t, summary item) # r)))"

definition fallback_title :: "string \<Rightarrow> string" where
  "fallback_title selectedText = join_space (take 5 (split_ws selectedText)) @ ''...''"

text \<open>What the \<open>catch\<close> block of \<open>processWithGroq\<close> returns.\<close>

definition fallback :: "string \<Rightarrow> structured" where
  "fallback selectedText =
     \<lparr>sectionTitle = JStr (fallback_title selectedText), connections = JArr []\<rparr>"

text \<open>
  Inside the \<open>try\<close> block: the authorization header converts the key (an error there is
  caught before anything is sent), the request is made, and every failure, among them
  the \<open>TypeError\<close> of reading a property of a parsed \<open>null\<close>, ends in the \<open>catch\<close> block.
\<close>

definition processWithGroq ::
  "platform \<Rightarrow> json \<Rightarrow> string \<Rightarrow> session_context \<Rightarrow> groq_content reply \<Rightarrow>
   (error + structured) \<times> event list" where
  "processWithGroq P apiKey selectedText sessionContext r =
     (case previous_content P (ctx_contents sessionContext) of
        Inl e \<Rightarrow> (Inl e, [])
      | Inr previous \<Rightarrow>
          (case text_of P apiKey of
             Inl e \<Rightarrow> (Inr (fallback selectedText), [])
           | Inr key_text \<Rightarrow>
               (let call = Fetch (GroqChat key_text (sessionName sessionContext) previous
                             (take 1500 selectedText))
                in case r of
                     Ok (Parsed parsed) \<Rightarrow>
                       if parsed = JNull then (Inr (fallback selectedText), [call])
                       else
                         (Inr \<lparr>sectionTitle =
                                 or_else (property parsed ''sectionTitle'') (JStr ''New Section''),
                               connections =
                                 or_else (property parsed ''connections'') (JArr [])\<rparr>,
                          [call])
                   | _ \<Rightarrow> (Inr (fallback selectedText), [call]))))"

subsection \<open>createNotionPage and appendToNotionPage\<close>

definition paragraphs :: "string \<Rightarrow> block list" where
  "paragraphs content =
     map (\<lambda>para. Paragraph (take 2000 (trim para)))
       (filter (\<lambda>p. trim p \<noteq> []) (split_blank False content))"

text \<open>The source line: nothing without a URL, a \<open>TypeError\<close> when the URL does not parse.\<close>

definition source_line :: "env \<Rightarrow> string option \<Rightarrow> error + block list" where
  "source_line E sourceUrl =
     (case sourceUrl of
        None \<Rightarrow> Inr []
      | Some u \<Rightarrow>
          if u = [] then Inr []
          else (case hostname E u of
                  None \<Rightarrow> Inl TypeError
                | Some h \<Rightarrow> Inr [SourceLine h u]))"

definition raise_notion :: "string \<Rightarrow> error" where
  "raise_notion m = Error (''Notion API error: '' @ m)"

text \<open>
  \<open>data.connections.map(c => `${c.toSection} - ${c.relationship}`)\<close> on the elements of
  an array, in order: reading a property of \<open>null\<close> throws a \<open>TypeError\<close>, a missing
  property is undefined.
\<close>

fun connection_items :: "platform \<Rightarrow> json list \<Rightarrow> error + (string \<times> string) list" where
  "connection_items P [] = Inr []"
| "connection_items P (c # cs) =
     (if c = JNull then Inl TypeError
      else (case text_of_opt P (property c ''toSection'') of
              Inl e \<Rightarrow> Inl e
            | Inr section_text \<Rightarrow>
                (case text_of_opt P (property c ''relationship'') of
                   Inl e \<Rightarrow> Inl e
                 | Inr relationship_text \<Rightarrow>
                     (case connection_items P cs of
                        Inl e \<Rightarrow> Inl e
                      | Inr r \<Rightarrow> Inr ((section_text, relationship_text) # r)))))"

text \<open>
  The block \<open>if (data.connections && data.connections.length > 0)\<close>. The connections
  are whatever \<open>processWithGroq\<close> returned. An array that is not empty is mapped; a
  string that is not empty, and an object whose \<open>length\<close> is greater than zero, pass
  the test and have no function \<open>map\<close>, so the call throws a \<open>TypeError\<close>; a number or
  a boolean has no \<open>length\<close>.
\<close>

definition connections_block :: "platform \<Rightarrow> json \<Rightarrow> error + block list" where
  "connections_block P conns =
     (case conns of
        JArr cs \<Rightarrow>
          if cs = [] then Inr []
          else (case connection_items P cs of
                  Inl e \<Rightarrow> Inl e
                | Inr connectionItems \<Rightarrow> Inr [Toggle connectionItems])
      | JStr s \<Rightarrow> if s = [] then Inr [] else Inl TypeError
      | JObj kvs \<Rightarrow>
          (case positive P (map_of kvs ''length'') of
             Inl e \<Rightarrow> Inl e
           | Inr b \<Rightarrow> if b then Inl TypeError else Inr [])
      | _ \<Rightarrow> Inr [])"

text \<open>
  \<open>Object.entries\<close> of a value that is not null: the properties of an object, the
  indexed elements of an array, the indexed characters of a string, nothing for a
  number or a boolean.
\<close>

definition entries :: "json \<Rightarrow> (string \<times> json) list" where
  "entries v =
     (case v of
        JObj kvs \<Rightarrow> kvs
      | JArr xs \<Rightarrow> zip (map decimal [0..<length xs]) xs
      | JStr s \<Rightarrow> zip (map decimal [0..<length s]) (map (\<lambda>c. JStr [c]) s)
      | _ \<Rightarrow> [])"

text \<open>
  The loop over \<open>Object.entries(schema.properties)\<close>: the name of the first property
  whose \<open>type\<close> is \<open>title\<close>, else \<open>Name\<close>; reading \<open>type\<close> of \<open>null\<close> throws.
\<close>

fun find_title :: "(string \<times> json) list \<Rightarrow> error + string" where
  "find_title [] = Inr ''Name''"
| "find_title ((propName, propConfig) # rest) =
     (if propConfig = JNull then Inl TypeError
      else if property propConfig ''type'' = Some (JStr ''title'') then Inr propName
      else find_title rest)"

definition title_property :: "json \<Rightarrow> error + string" where
  "title_property schema =
     (case property schema ''properties'' of
        None \<Rightarrow> Inl TypeError
      | Some props \<Rightarrow> if props = JNull then Inl TypeError else find_title (entries props))"

text \<open>
  The request \<open>createNotionPage\<close> makes first: the database id and the token are
  converted to text for the URL and the header.
\<close>

definition schema_request :: "platform \<Rightarrow> json \<Rightarrow> error + request" where
  "schema_request P credentials =
     (case text_of_opt P (property credentials ''databaseId'') of
        Inl e \<Rightarrow> Inl e
      | Inr database_text \<Rightarrow>
          (case text_of_opt P (property credentials ''token'') of
             Inl e \<Rightarrow> Inl e
           | Inr token_text \<Rightarrow> Inr (NotionGetDatabase database_text token_text)))"

text \<open>The request it makes once it has the schema.\<close>

definition create_request ::
  "platform \<Rightarrow> env \<Rightarrow> json \<Rightarrow> string \<Rightarrow> string \<Rightarrow> string option \<Rightarrow> json \<Rightarrow> json \<Rightarrow>
   error + request" where
  "create_request P E credentials session_name content sourceUrl section_title schema =
     (case title_property schema of
        Inl e \<Rightarrow> Inl e
      | Inr titlePropertyName \<Rightarrow>
          (case source_line E sourceUrl of
             Inl e \<Rightarrow> Inl e
           | Inr src \<Rightarrow>
               (case text_of_opt P (property credentials ''token'') of
                  Inl e \<Rightarrow> Inl e
                | Inr token_text \<Rightarrow>
                    Inr (NotionCreatePage token_text (property credentials ''databaseId'')
                           titlePropertyName session_name
                           ([TableOfContents, Divider, Heading2 section_title] @
                            paragraphs content @ src @ [Divider])))))"

definition createNotionPage ::
  "platform \<Rightarrow> env \<Rightarrow> json \<Rightarrow> string \<Rightarrow> string \<Rightarrow> string option \<Rightarrow> json \<Rightarrow>
   (error + json) \<times> event list" where
  "createNotionPage P E credentials session_name content sourceUrl section_title =
     (case schema_request P credentials of
        Inl e \<Rightarrow> (Inl e, [])
      | Inr get_schema \<Rightarrow>
          (case schema_reply E of
             Rejected e \<Rightarrow> (Inl e, [Fetch get_schema])
           | NotOk m \<Rightarrow> (Inl (raise_notion m), [Fetch get_schema])
           | Ok schema \<Rightarrow>
               (case create_request P E credentials session_name content sourceUrl
                       section_title schema of
                  Inl e \<Rightarrow> (Inl e, [Fetch get_schema])
                | Inr create \<Rightarrow>
                    (case create_reply E of
                       Rejected e \<Rightarrow> (Inl e, [Fetch get_schema, Fetch create])
                     | NotOk m \<Rightarrow> (Inl (raise_notion m), [Fetch get_schema, Fetch create])
                     | Ok page \<Rightarrow> (Inr page, [Fetch get_schema, Fetch create])))))"

text \<open>
  The request \<open>appendToNotionPage\<close> makes: the children are built first (heading,
  paragraphs, connections, source line, divider), then the page id and the token are
  converted to text for the URL and the header. Whatever throws on the way throws
  before anything is sent.
\<close>

definition append_request ::
  "platform \<Rightarrow> env \<Rightarrow> json \<Rightarrow> json \<Rightarrow> string \<Rightarrow> string option \<Rightarrow> json \<Rightarrow> json \<Rightarrow>
   error + request" where
  "append_request P E credentials pageId content sourceUrl conns section_title =
     (case connections_block P conns of
        Inl e \<Rightarrow> Inl e
      | Inr related \<Rightarrow>
          (case source_line E sourceUrl of
             Inl e \<Rightarrow> Inl e
           | Inr src \<Rightarrow>
               (case text_of P pageId of
                  Inl e \<Rightarrow> Inl e
                | Inr page_text \<Rightarrow>
                    (case text_of_opt P (property credentials ''token'') of
                       Inl e \<Rightarrow> Inl e
                     | Inr token_text \<Rightarrow>
                         Inr (NotionAppendChildren page_text token_text
                                ([Heading2 section_title] @ paragraphs content @ related @
                                 src @ [Divider]))))))"

definition appendToNotionPage ::
  "platform \<Rightarrow> env \<Rightarrow> json \<Rightarrow> json \<Rightarrow> string \<Rightarrow> string option \<Rightarrow> json \<Rightarrow> json \<Rightarrow>
   (error + unit) \<times> event list" where
  "appendToNotionPage P E credentials pageId content sourceUrl conns section_title =
     (case append_request P E credentials pageId content sourceUrl conns section_title of
        Inl e \<Rightarrow> (Inl e, [])
      | Inr patch \<Rightarrow>
          (case append_reply E of
             Rejected e \<Rightarrow> (Inl e, [Fetch patch])
           | NotOk m \<Rightarrow> (Inl (raise_notion m), [Fetch patch])
           | Ok _ \<Rightarrow> (Inr (), [Fetch patch])))"

subsection \<open>handleMapping\<close>

text \<open>What the \<open>catch\<close> block of \<open>handleMapping\<close> emits for a thrown error.\<close>

definition failed :: "error \<Rightarrow> event list" where
  "failed e = [ErrorNotification e, MAPPING_ERROR e]"

text \<open>
  The page id the branch \<open>session && session.notionPageId\<close> takes, if it takes the
  first arm.
\<close>

definition existing_page :: "world \<Rightarrow> json option" where
  "existing_page w =
     (case getActiveSession w of
        None \<Rightarrow> None
      | Some s \<Rightarrow>
          (case notionPageId s of
             None \<Rightarrow> None
           | Some p \<Rightarrow> if truthy_json p then Some p else None))"

text \<open>
  The storing step of \<open>handleMapping\<close>: that branch, with the \<open>updateSession\<close> that
  follows a page creation; \<open>notionResponse.id\<close> throws when the body is \<open>null\<close>.
\<close>

definition store_capture ::
  "platform \<Rightarrow> env \<Rightarrow> json \<Rightarrow> string \<Rightarrow> session_context \<Rightarrow> string \<Rightarrow> string option \<Rightarrow>
   structured \<Rightarrow> world \<Rightarrow> (error + unit) \<times> event list \<times> world" where
  "store_capture P E notionCreds activeId sessionContext selectedText sourceUrl structuredData w =
     (case existing_page w of
        Some pageId \<Rightarrow>
          (case appendToNotionPage P E notionCreds pageId selectedText sourceUrl
                  (connections structuredData) (sectionTitle structuredData) of
             (Inl e, evs) \<Rightarrow> (Inl e, evs, w)
           | (Inr _, evs) \<Rightarrow> (Inr (), evs, w))
      | None \<Rightarrow>
          (case createNotionPage P E notionCreds (sessionName sessionContext) selectedText
                  sourceUrl (sectionTitle structuredData) of
             (Inl e, evs) \<Rightarrow> (Inl e, evs, w)
           | (Inr notionResponse, evs) \<Rightarrow>
               if notionResponse = JNull then (Inl TypeError, evs, w)
               else
                 (Inr (), evs,
                  snd (updateSession activeId
                         (\<lambda>s. s\<lparr>notionPageId := property notionResponse ''id''\<rparr>) w))))"

definition handleMapping ::
  "platform \<Rightarrow> env \<Rightarrow> string \<Rightarrow> string option \<Rightarrow> world \<Rightarrow> event list \<times> world" where
  "handleMapping P E selectedText sourceUrl w =
     (if \<not> truthy_bool (setupComplete w) then
        ([Notification ''Please complete setup first'' ''error''], w)
      else if truthy_bool (isLocked w) then
        ([Notification ''Extension is locked. Please unlock first.'' ''error''], w)
      else
        (case (if truthy_string (activeSessionId w) then activeSessionId w else None) of
           None \<Rightarrow> ([Notification ''No active session. Please create one first.'' ''error''], w)
         | Some activeId \<Rightarrow>
             (let processing = [Notification ''Processing...'' ''info''];
                  sessionContext = getSessionContext activeId w
              in case getEncrypted P (generated_key E) ''groqApiKey'' w of
                   (Inl e, w1) \<Rightarrow> (processing @ failed e, w1)
                 | (Inr groqApiKey, w1) \<Rightarrow>
                     if \<not> truthy_json groqApiKey then
                       (processing @ [Notification ''Groq API key not found'' ''error''], w1)
                     else
                       (case getEncrypted P (generated_key E) ''notionCredentials'' w1 of
                          (Inl e, w2) \<Rightarrow> (processing @ failed e, w2)
                        | (Inr notionCreds, w2) \<Rightarrow>
                            if \<not> truthy_json notionCreds then
                              (processing @
                                 [Notification ''Notion credentials not found'' ''error''], w2)
                            else
                              (case processWithGroq P groqApiKey selectedText sessionContext
                                      (groq_reply E) of
                                 (Inl e, groq_events) \<Rightarrow>
                                   (processing @ groq_events @ failed e, w2)
                               | (Inr structuredData, groq_events) \<Rightarrow>
                                   (case store_capture P E notionCreds activeId sessionContext
                                           selectedText sourceUrl structuredData w2 of
                                      (Inl e, store_events, w3) \<Rightarrow>
                                        (processing @ groq_events @ store_events @ failed e, w3)
                                    | (Inr _, store_events, w3) \<Rightarrow>
                                        (processing @ groq_events @ store_events @
                                           [Notification ''Mapped successfully!'' ''success'',
                                            MAPPING_COMPLETE],
                                         snd (addContentToSession activeId
                                                (sectionTitle structuredData)
                                                (take 300 selectedText) (clock E) w3))))))))"

text \<open>The requests among the events of a run, in order.\<close>

fun requests :: "event list \<Rightarrow> request list" where
  "requests [] = []"
| "requests (Fetch r # es) = r # requests es"
| "requests (_ # es) = requests es"

text \<open>
  The title as the specification words it: the first five words of the text, a word being
  a maximal run of characters that are not whitespace, with single spaces between them
  and an ellipsis after.
\<close>

fun words_of :: "string \<Rightarrow> string list" where
  "words_of [] = []"
| "words_of (c # cs) =
     (if is_space c then words_of cs
      else (case cs of
              [] \<Rightarrow> [[c]]
            | d # _ \<Rightarrow> if is_space d then [c] # words_of cs
                       else (case words_of cs of f # fs \<Rightarrow> (c # f) # fs | [] \<Rightarrow> [[c]])))"

definition first_five_words_title :: "string \<Rightarrow> string" where
  "first_five_words_title selectedText = join_space (take 5 (words_of selectedText)) @ ''...''"

section \<open>Notions the statements use\<close>

text \<open>
  What the browser's primitives are taken to satisfy: decryption under the key and IV
  of the encryption returns the plaintext; the JSON text of a value survives
  \<open>TextEncoder\<close>, \<open>TextDecoder\<close> and \<open>JSON.parse\<close>; and, for one key and one plaintext,
  two different 12-byte IVs give two different outputs (in AES-GCM with 12-byte IVs the
  authentication tags differ when the ciphertexts agree).
\<close>

definition cipher_correct :: "platform \<Rightarrow> bool" where
  "cipher_correct P = (\<forall>k n m. aes_gcm_decrypt P k n (aes_gcm_encrypt P k n m) = Some m)"

definition serialises :: "platform \<Rightarrow> json \<Rightarrow> bool" where
  "serialises P v =
     (json_parse P (TextDecoder_decode P (TextEncoder_encode (json_stringify P v))) = Some v)"

definition nonce_separates :: "platform \<Rightarrow> bool" where
  "nonce_separates P =
     (\<forall>k m n1 n2. length n1 = 12 \<and> length n2 = 12 \<and> n1 \<noteq> n2 \<longrightarrow>
        aes_gcm_encrypt P k n1 m \<noteq> aes_gcm_encrypt P k n2 m)"

text \<open>
  A sequence of \<open>encrypt\<close> calls, each with its own draw and its own value, threaded
  through the state; the results are in call order.
\<close>

fun encrypt_all ::
  "platform \<Rightarrow> bytes \<Rightarrow> (bytes \<times> json) list \<Rightarrow> world \<Rightarrow>
   (error + encrypted_blob) list \<times> world" where
  "encrypt_all P gen_key [] w = ([], w)"
| "encrypt_all P gen_key ((iv_draw, v) # calls) w =
     (case encrypt P gen_key iv_draw v w of
        (r, w1) \<Rightarrow> (case encrypt_all P gen_key calls w1 of (rs, w2) \<Rightarrow> (r # rs, w2)))"

text \<open>
  The structuring call failed: the fetch rejected, the status was not ok, or the body
  had no content that parses.
\<close>

definition structuring_failed :: "groq_content reply \<Rightarrow> bool" where
  "structuring_failed r = (case r of Ok (Parsed _) \<Rightarrow> False | _ \<Rightarrow> True)"

text \<open>Reading a list of requests: the page creations, the pages appended to, the block sets written.\<close>

fun page_creations :: "request list \<Rightarrow> nat" where
  "page_creations [] = 0"
| "page_creations (NotionCreatePage _ _ _ _ _ # rs) = Suc (page_creations rs)"
| "page_creations (_ # rs) = page_creations rs"

fun appended_pages :: "request list \<Rightarrow> string list" where
  "appended_pages [] = []"
| "appended_pages (NotionAppendChildren pageId _ _ # rs) = pageId # appended_pages rs"
| "appended_pages (_ # rs) = appended_pages rs"

fun written_blocks :: "request list \<Rightarrow> block list list" where
  "written_blocks [] = []"
| "written_blocks (NotionCreatePage _ _ _ _ children # rs) = children # written_blocks rs"
| "written_blocks (NotionAppendChildren _ _ children # rs) = children # written_blocks rs"
| "written_blocks (_ # rs) = written_blocks rs"

fun is_toggle :: "block \<Rightarrow> bool" where
  "is_toggle (Toggle _) = True"
| "is_toggle _ = False"

fun is_heading :: "block \<Rightarrow> bool" where
  "is_heading (Heading2 _) = True"
| "is_heading _ = False"

text \<open>The requests made to the document service.\<close>

fun is_notion :: "request \<Rightarrow> bool" where
  "is_notion (GroqChat _ _ _ _) = False"
| "is_notion _ = True"

section \<open>Overlapping calls of getOrCreateMasterKey\<close>

text \<open>
  JavaScript runs one piece of code at a time; an \<open>async\<close> function gives up control at
  each \<open>await\<close> and any other ready continuation may run before it resumes. The model
  cuts \<open>getOrCreateMasterKey\<close> and the anonymous \<open>async\<close> function it starts (the
  creator) at their \<open>await\<close>s; an action runs one of the pieces to its next \<open>await\<close>, and
  a schedule is any list of actions. An action whose piece is not ready does nothing.

  A creator is at one of these points: the read of \<open>_masterKey\<close> is pending; \<open>importKey\<close>
  of the decoded bytes is pending; \<open>generateKey\<close> is pending; \<open>exportKey\<close> of the key just
  assigned to \<open>_encryptionKey\<close> is pending; the write of \<open>_masterKey\<close> is pending; or its
  promise is settled. A caller is not yet called; it started a creator and awaits its
  promise (after which it resets \<open>_keyPromise\<close>); it returned the promise it found in
  \<open>_keyPromise\<close> and settles with it; or it has finished.
\<close>

datatype outcome =
    Returned "bytes option"
  | Threw error

datatype creator =
    Get_pending
  | Import_pending bytes
  | Generate_pending
  | Export_pending bytes
  | Set_pending
  | Settled outcome

datatype caller =
    Idle
  | Initiator nat
  | Joined nat
  | Finished outcome

record async_state =
  mem_key :: "bytes option"
  key_promise :: "nat option"
  creators :: "creator list"
  callers :: "caller list"
  stored_key :: "string option"

datatype action =
    Call nat
  | Creator nat
  | Resume nat

text \<open>
  \<open>Call i\<close>: the synchronous start of the \<open>i\<close>-th call: the two tests, and, when both
  fields are null, the start of a creator (which runs up to its read of the store) and
  the assignment of its promise to \<open>_keyPromise\<close>.
\<close>

definition call :: "nat \<Rightarrow> async_state \<Rightarrow> async_state" where
  "call i s =
     (if i < length (callers s) \<and> callers s ! i = Idle then
        (case mem_key s of
           Some k \<Rightarrow> s\<lparr>callers := (callers s)[i := Finished (Returned (Some k))]\<rparr>
         | None \<Rightarrow>
             (case key_promise s of
                Some j \<Rightarrow> s\<lparr>callers := (callers s)[i := Joined j]\<rparr>
              | None \<Rightarrow>
                  s\<lparr>creators := creators s @ [Get_pending],
                    key_promise := Some (length (creators s)),
                    callers := (callers s)[i := Initiator (length (creators s))]\<rparr>))
      else s)"

text \<open>
  \<open>Creator j\<close>: the next piece of the \<open>j\<close>-th creator; \<open>gen j\<close> is the key its
  \<open>generateKey\<close> returns. The last piece returns \<open>this._encryptionKey\<close> as it is then.
\<close>

definition creator_step :: "(nat \<Rightarrow> bytes) \<Rightarrow> nat \<Rightarrow> async_state \<Rightarrow> async_state" where
  "creator_step gen j s =
     (if j < length (creators s) then
        (case creators s ! j of
           Get_pending \<Rightarrow>
             (case (if truthy_string (stored_key s) then stored_key s else None) of
                Some stored \<Rightarrow>
                  (case base64ToArrayBuffer stored of
                     Inl e \<Rightarrow> s\<lparr>creators := (creators s)[j := Settled (Threw e)]\<rparr>
                   | Inr keyData \<Rightarrow> s\<lparr>creators := (creators s)[j := Import_pending keyData]\<rparr>)
              | None \<Rightarrow> s\<lparr>creators := (creators s)[j := Generate_pending]\<rparr>)
         | Import_pending keyData \<Rightarrow>
             (case importKey keyData of
                Inl e \<Rightarrow> s\<lparr>creators := (creators s)[j := Settled (Threw e)]\<rparr>
              | Inr k \<Rightarrow> s\<lparr>mem_key := Some k,
                           creators := (creators s)[j := Settled (Returned (Some k))]\<rparr>)
         | Generate_pending \<Rightarrow>
             s\<lparr>mem_key := Some (gen j), creators := (creators s)[j := Export_pending (gen j)]\<rparr>
         | Export_pending k \<Rightarrow>
             s\<lparr>stored_key := Some (arrayBufferToBase64 k),
               creators := (creators s)[j := Set_pending]\<rparr>
         | Set_pending \<Rightarrow> s\<lparr>creators := (creators s)[j := Settled (Returned (mem_key s))]\<rparr>
         | Settled _ \<Rightarrow> s)
      else s)"

text \<open>
  \<open>Resume i\<close>: the \<open>i\<close>-th call continues once the promise it waits for is settled. The
  call that started the creator resets \<open>_keyPromise\<close> and returns the key; if the promise
  rejected, its \<open>await\<close> throws and the reset is not reached.
\<close>

definition resume :: "nat \<Rightarrow> async_state \<Rightarrow> async_state" where
  "resume i s =
     (if i < length (callers s) then
        (case callers s ! i of
           Initiator j \<Rightarrow>
             (if j < length (creators s) then
                (case creators s ! j of
                   Settled (Returned k) \<Rightarrow>
                     s\<lparr>key_promise := None, callers := (callers s)[i := Finished (Returned k)]\<rparr>
                 | Settled (Threw e) \<Rightarrow> s\<lparr>callers := (callers s)[i := Finished (Threw e)]\<rparr>
                 | _ \<Rightarrow> s)
              else s)
         | Joined j \<Rightarrow>
             (if j < length (creators s) then
                (case creators s ! j of
                   Settled r \<Rightarrow> s\<lparr>callers := (callers s)[i := Finished r]\<rparr>
                 | _ \<Rightarrow> s)
              else s)
         | _ \<Rightarrow> s)
      else s)"

fun step :: "(nat \<Rightarrow> bytes) \<Rightarrow> action \<Rightarrow> async_state \<Rightarrow> async_state" where
  "step gen (Call i) s = call i s"
| "step gen (Creator j) s = creator_step gen j s"
| "step gen (Resume i) s = resume i s"

fun run :: "(nat \<Rightarrow> bytes) \<Rightarrow> action list \<Rightarrow> async_state \<Rightarrow> async_state" where
  "run gen [] s = s"
| "run gen (a # as) s = run gen as (step gen a s)"

text \<open>\<open>n\<close> calls about to be made, before any master key exists, in memory or in the store.\<close>

definition before_first_key :: "nat \<Rightarrow> async_state" where
  "before_first_key n =
     \<lparr>mem_key = None, key_promise = None, creators = [], callers = replicate n Idle,
      stored_key = None\<rparr>"

text \<open>The results of the calls that have finished.\<close>

fun results :: "caller list \<Rightarrow> outcome list" where
  "results [] = []"
| "results (Finished r # cs) = r # results cs"
| "results (_ # cs) = results cs"

text \<open>
  The schedule in which all \<open>n\<close> calls start before the first result of the store
  arrives, the creator then runs through, and the calls resume in order.
\<close>

definition all_then_resume :: "nat \<Rightarrow> action list" where
  "all_then_resume n =
     map Call [0..<n] @ [Creator 0, Creator 0, Creator 0, Creator 0] @ map Resume [0..<n]"

text \<open>
  What holds in every state the calls can reach from \<open>before_first_key\<close>: there is at most
  one creator; while it has not assigned the key, \<open>_keyPromise\<close> holds its promise; the key
  in memory, the key in the store and the value of its promise are the one key it
  generated; and every call is waiting for this creator or has returned this key.
\<close>

definition single_flight :: "(nat \<Rightarrow> bytes) \<Rightarrow> async_state \<Rightarrow> bool" where
  "single_flight gen s =
     (case creators s of
        [] \<Rightarrow> mem_key s = None \<and> key_promise s = None \<and> stored_key s = None \<and>
              set (callers s) \<subseteq> {Idle}
      | [c] \<Rightarrow>
          set (callers s) \<subseteq>
            {Idle, Initiator 0, Joined 0, Finished (Returned (Some (gen 0)))} \<and>
          (case c of
             Get_pending \<Rightarrow>
               mem_key s = None \<and> stored_key s = None \<and> key_promise s = Some 0
           | Import_pending _ \<Rightarrow> False
           | Generate_pending \<Rightarrow>
               mem_key s = None \<and> stored_key s = None \<and> key_promise s = Some 0
           | Export_pending k \<Rightarrow>
               k = gen 0 \<and> mem_key s = Some (gen 0) \<and> stored_key s = None \<and>
               key_promise s = Some 0
           | Set_pending \<Rightarrow>
               mem_key s = Some (gen 0) \<and>
               stored_key s = Some (arrayBufferToBase64 (gen 0)) \<and> key_promise s = Some 0
           | Settled r \<Rightarrow>
               r = Returned (Some (gen 0)) \<and> mem_key s = Some (gen 0) \<and>
               stored_key s = Some (arrayBufferToBase64 (gen 0)) \<and>
               (key_promise s = Some 0 \<or> key_promise s = None))
      | _ \<Rightarrow> False)"

text \<open>
  The callers while the schedule \<open>all_then_resume\<close> runs: the first \<open>k\<close> of \<open>n\<close> calls
  started, and the first \<open>k\<close> resumed with the result \<open>r\<close>.
\<close>

definition started :: "nat \<Rightarrow> nat \<Rightarrow> caller list" where
  "started k n =
     map (\<lambda>i. if i < k then (if i = 0 then Initiator 0 else Joined 0) else Idle) [0..<n]"

definition resumed :: "outcome \<Rightarrow> nat \<Rightarrow> nat \<Rightarrow> caller list" where
  "resumed r k n =
     map (\<lambda>i. if i < k then Finished r else (if i = 0 then Initiator 0 else Joined 0)) [0..<n]"

text \<open>
  One call on its own, seen from the state of the extension: the fields of \<open>CryptoUtils\<close>
  and the stored key, no promise pending; and the result of \<open>getOrCreateMasterKey\<close> as
  the outcome of a call.
\<close>

definition alone :: "world \<Rightarrow> async_state" where
  "alone w =
     \<lparr>mem_key = encryptionKey w, key_promise = None, creators = [], callers = [Idle],
      stored_key = masterKey w\<rparr>"

definition outcome_of :: "error + bytes \<Rightarrow> outcome" where
  "outcome_of r = (case r of Inl e \<Rightarrow> Threw e | Inr k \<Rightarrow> Returned (Some k))"

section \<open>Concrete states\<close>

text \<open>
  A stand-in for the browser, to run the model on concrete inputs. It is not a cipher
  and not a JSON codec: it serialises the two values below as one digit each, frames
  the plaintext with the key and the IV, and derives password bits by truncation. It
  converts null, the booleans and the integers as the language does and treats every
  array and object as one that cannot be converted.
\<close>

definition demo_values :: "json list" where
  "demo_values =
     [JStr ''gsk_demo'',
      JObj [(''token'', JStr ''secret_demo''), (''databaseId'', JStr ''db1'')]]"

definition demo_platform :: platform where
  "demo_platform =
     \<lparr>json_stringify = (\<lambda>v. case index_of v demo_values of
                                None \<Rightarrow> [] | Some i \<Rightarrow> [0x30 + of_nat i]),
      json_parse = (\<lambda>t. case t of
                           [c] \<Rightarrow> (if 0x30 \<le> c \<and> unat c - 0x30 < length demo_values
                                  then Some (demo_values ! (unat c - 0x30)) else None)
                         | _ \<Rightarrow> None),
      TextDecoder_decode = map ucast,
      aes_gcm_encrypt = (\<lambda>k n m. k @ n @ m),
      aes_gcm_decrypt = (\<lambda>k n c. if take (length k + length n) c = k @ n
                                  then Some (drop (length k + length n) c) else None),
      pbkdf2 = (\<lambda>pw s iterations bits. take (bits div 8) (pw @ s @ replicate (bits div 8) 0)),
      to_text = (\<lambda>v. case v of
                          JNull \<Rightarrow> Inr ''null''
                        | JBool b \<Rightarrow> Inr (if b then ''true'' else ''false'')
                        | JNum n \<Rightarrow> Inr (if n < 0 then ''-'' @ decimal (nat (- n)) else decimal (nat n))
                        | JStr s \<Rightarrow> Inr s
                        | _ \<Rightarrow> Inl TypeError),
      gt_zero = (\<lambda>v. case v of
                          JNull \<Rightarrow> Inr False
                        | JBool b \<Rightarrow> Inr b
                        | JNum n \<Rightarrow> Inr (0 < n)
                        | _ \<Rightarrow> Inl TypeError)\<rparr>"

definition demo_key :: bytes where
  "demo_key = replicate 32 0x2A"

definition demo_blob :: "bytes \<Rightarrow> json \<Rightarrow> encrypted_blob" where
  "demo_blob n v =
     \<lparr>iv = arrayBufferToBase64 n,
      data = arrayBufferToBase64
               (aes_gcm_encrypt demo_platform demo_key n
                  (TextEncoder_encode (json_stringify demo_platform v)))\<rparr>"

text \<open>
  The extension right after installation; after onboarding (\<open>completeSetup\<close> in the popup,
  both secrets stored, the key in memory); and after the user has created the session
  ``Research A'', before and after its first capture created the remote page \<open>page1\<close>.
\<close>

definition fresh_install :: world where
  "fresh_install =
     \<lparr>setupComplete = None, isLocked = None, activeSessionId = None, sessions = None,
      totalNotes = None, masterKey = None, encrypted = (\<lambda>_. None),
      encryptionKey = None, keyPromise = None\<rparr>"

definition store_after_setup :: world where
  "store_after_setup =
     \<lparr>setupComplete = Some True, isLocked = Some False, activeSessionId = None,
      sessions = Some [], totalNotes = Some 0,
      masterKey = Some (arrayBufferToBase64 demo_key),
      encrypted = (\<lambda>key. if key = ''groqApiKey'' then Some (demo_blob (replicate 12 1) (demo_values ! 0))
                         else if key = ''notionCredentials'' then Some (demo_blob (replicate 12 2) (demo_values ! 1))
                         else None),
      encryptionKey = Some demo_key, keyPromise = None\<rparr>"

definition store_one_session :: world where
  "store_one_session = snd (createSession ''k0'' ''Research A'' ''2024-01-01'' store_after_setup)"

definition store_with_page :: world where
  "store_with_page =
     snd (updateSession ''k0'' (\<lambda>s. s\<lparr>notionPageId := Some (JStr ''page1'')\<rparr>) store_one_session)"

text \<open>
  A healthy environment; one whose structuring service answers HTTP 500; and two whose
  structuring service answers with the text \<open>none\<close>, or with a list holding \<open>null\<close>,
  where the connections are expected.
\<close>

definition demo_env :: env where
  "demo_env =
     \<lparr>groq_reply =
        Ok (Parsed (JObj [(''sectionTitle'', JStr ''Cell Biology''), (''connections'', JArr [])])),
      schema_reply = Ok (JObj [(''properties'', JObj [(''Title'', JObj [(''type'', JStr ''title'')])])]),
      create_reply = Ok (JObj [(''id'', JStr ''page1'')]),
      append_reply = Ok (),
      hostname = (\<lambda>u. Some ''example.org''),
      generated_key = demo_key,
      clock = ''2024-01-02''\<rparr>"

definition demo_env_500 :: env where
  "demo_env_500 = demo_env\<lparr>groq_reply := NotOk ''Internal Server Error''\<rparr>"



text \<open>A stored entry whose IV is not base64 text.\<close>

definition store_bad_entry :: world where
  "store_bad_entry =
     store_after_setup\<lparr>encrypted := (encrypted store_after_setup)
        (''groqApiKey'' := Some \<lparr>iv = ''!'', data = ''AAAA''\<rparr>)\<rparr>"

section \<open>Properties of the session store\<close>

subsection \<open>Searching and updating the session list\<close>

lemma findIndex_Some:
  "findIndex P xs = Some i \<Longrightarrow> i < length xs \<and> P (xs ! i) \<and> find P xs = Some (xs ! i)"
  by (induction xs arbitrary: i) (auto split: if_splits option.splits)

lemma findIndex_None: "findIndex P xs = None \<longleftrightarrow> find P xs = None"
  by (induction xs) (auto split: option.splits)

lemma find_update_hit:
  "findIndex P xs = Some i \<Longrightarrow> P y \<Longrightarrow> find P (xs[i := y]) = Some y"
  by (induction xs arbitrary: i) (auto split: if_splits option.splits)

lemma find_update_miss:
  "\<not> P y \<Longrightarrow> \<not> P (xs ! i) \<Longrightarrow> find P (xs[i := y]) = find P xs"
proof (induction xs arbitrary: i)
  case Nil
  then show ?case by simp
next
  case (Cons x xs)
  then show ?case by (cases i) auto
qed

lemma slice_last_short: "length xs \<le> n \<Longrightarrow> slice_last n xs = xs"
  by (simp add: slice_last_def)

lemma length_slice_last: "length (slice_last n xs) = min n (length xs)"
  by (simp add: slice_last_def)

lemma slice_last_append: "slice_last n (slice_last n xs @ ys) = slice_last n (xs @ ys)"
proof (cases "length xs \<le> n")
  case True
  then show ?thesis by (simp add: slice_last_def)
next
  case False
  then have "length xs + length ys - (length xs - n + n) + (length xs - n) =
             length xs + length ys - n"
    by arith
  with False show ?thesis by (simp add: slice_last_def)
qed

lemma getSessions_upd [simp]:
  "getSessions (st\<lparr>sessions := Some xs\<rparr>) = xs"
  "getSessions (st\<lparr>totalNotes := t\<rparr>) = getSessions st"
  by (simp_all add: getSessions_def)

subsection \<open>One call of addContentToSession\<close>

text \<open>A call on the session \<open>sid\<close> itself: one entry appended, the window cut to 30, the counter up by one.\<close>

lemma add_same:
  assumes "find (\<lambda>s. session_id s = sid) (getSessions st) = Some s0"
  shows "getSessionContext sid (snd (addContentToSession sid ttl summ now st)) =
         (getSessionContext sid st)\<lparr>
            ctx_contents := slice_last 30 (ctx_contents (getSessionContext sid st) @
               [\<lparr>title = ttl, summary = take 300 summ, timestamp = now\<rparr>]),
            ctx_contentCount := ctx_contentCount (getSessionContext sid st) + 1\<rparr>"
proof -
  from assms obtain i where i: "findIndex (\<lambda>s. session_id s = sid) (getSessions st) = Some i"
    using findIndex_None [of "\<lambda>s. session_id s = sid" "getSessions st"]
    by (cases "findIndex (\<lambda>s. session_id s = sid) (getSessions st)") auto
  from findIndex_Some [OF i] assms
  have s0: "getSessions st ! i = s0" "session_id s0 = sid" by auto
  show ?thesis
    using i s0 assms
    by (simp add: addContentToSession_def getSessionContext_def Let_def find_update_hit
          slice_last_short)
qed

text \<open>A call on another session id leaves the session \<open>sid\<close> as it was.\<close>

lemma add_other:
  assumes "sid' \<noteq> sid"
  shows "getSessionContext sid (snd (addContentToSession sid' ttl summ now st)) =
         getSessionContext sid st"
proof (cases "findIndex (\<lambda>s. session_id s = sid') (getSessions st)")
  case None
  then show ?thesis by (simp add: addContentToSession_def)
next
  case (Some i)
  from findIndex_Some [OF Some] have "session_id (getSessions st ! i) = sid'" by simp
  with Some assms show ?thesis
    by (simp add: addContentToSession_def getSessionContext_def Let_def find_update_miss)
qed

lemma add_keeps_session:
  assumes "find (\<lambda>s. session_id s = sid) (getSessions st) \<noteq> None"
  shows "find (\<lambda>s. session_id s = sid)
           (getSessions (snd (addContentToSession sid' ttl summ now st))) \<noteq> None"
proof (cases "findIndex (\<lambda>s. session_id s = sid') (getSessions st)")
  case None
  with assms show ?thesis by (simp add: addContentToSession_def)
next
  case (Some i)
  note fi = findIndex_Some [OF Some]
  show ?thesis
  proof (cases "sid' = sid")
    case True
    with Some fi show ?thesis
      by (simp add: addContentToSession_def Let_def find_update_hit)
  next
    case False
    with Some fi assms show ?thesis
      by (simp add: addContentToSession_def Let_def find_update_miss)
  qed
qed

subsection \<open>Any number of calls\<close>

lemma addContents_context:
  assumes "find (\<lambda>s. session_id s = sid) (getSessions st) \<noteq> None"
  shows "ctx_contents (getSessionContext sid (addContents calls st)) =
           (if entries_for sid calls = [] then ctx_contents (getSessionContext sid st)
            else slice_last 30 (ctx_contents (getSessionContext sid st) @ entries_for sid calls)) \<and>
         ctx_contentCount (getSessionContext sid (addContents calls st)) =
           ctx_contentCount (getSessionContext sid st) + length (entries_for sid calls)"
  using assms
proof (induction calls arbitrary: st)
  case Nil
  then show ?case by (simp add: entries_for_def)
next
  case (Cons c calls)
  obtain sid' ttl summ now where c: "c = (sid', ttl, summ, now)" by (cases c) auto
  let ?st1 = "snd (addContentToSession sid' ttl summ now st)"
  have keep: "find (\<lambda>s. session_id s = sid) (getSessions ?st1) \<noteq> None"
    by (rule add_keeps_session [OF Cons.prems])
  note IH = Cons.IH [OF keep]
  show ?case
  proof (cases "sid' = sid")
    case True
    from Cons.prems obtain s0 where
      "find (\<lambda>s. session_id s = sid) (getSessions st) = Some s0" by auto
    from add_same [OF this, of ttl summ now]
    have step: "ctx_contents (getSessionContext sid ?st1) =
                  slice_last 30 (ctx_contents (getSessionContext sid st) @
                    [\<lparr>title = ttl, summary = take 300 summ, timestamp = now\<rparr>])"
               "ctx_contentCount (getSessionContext sid ?st1) =
                  ctx_contentCount (getSessionContext sid st) + 1"
      using True by simp_all
    have e: "entries_for sid (c # calls) =
               \<lparr>title = ttl, summary = take 300 summ, timestamp = now\<rparr> # entries_for sid calls"
      using True c by (simp add: entries_for_def)
    show ?thesis
      using IH step e c True
      by (simp add: slice_last_append)
  next
    case False
    have e: "entries_for sid (c # calls) = entries_for sid calls"
      using False c by (simp add: entries_for_def)
    show ?thesis
      using IH add_other [OF False, of ttl summ now st] e c by simp
  qed
qed

text \<open>
  Claim C5. Take a session that is in the stored list and whose window holds at most 30
  entries (a session as \<open>createSession\<close> or the popup writes it holds none). After any
  sequence of \<open>addContentToSession\<close> calls, on this session or on others, its window
  holds at most 30 entries; it is the last 30 of the old entries followed by the entries
  the calls on this session appended, in call order, so the oldest are the ones dropped;
  and \<open>contentCount\<close> has grown by exactly the number of calls made on this session,
  however many that is.
\<close>

theorem contents_capped_count_exact:
  assumes "find (\<lambda>s. session_id s = sid) (getSessions st) = Some s0"
      and "length (ctx_contents (getSessionContext sid st)) \<le> 30"
  shows "length (ctx_contents (getSessionContext sid (addContents calls st))) \<le> 30 \<and>
         ctx_contents (getSessionContext sid (addContents calls st)) =
           slice_last 30 (ctx_contents (getSessionContext sid st) @ entries_for sid calls) \<and>
         ctx_contentCount (getSessionContext sid (addContents calls st)) =
           ctx_contentCount (getSessionContext sid st) + length (entries_for sid calls)"
proof -
  have ne: "find (\<lambda>s. session_id s = sid) (getSessions st) \<noteq> None"
    using assms(1) by simp
  from addContents_context [OF ne, of calls] assms(2)
  have "ctx_contents (getSessionContext sid (addContents calls st)) =
          slice_last 30 (ctx_contents (getSessionContext sid st) @ entries_for sid calls)"
       "ctx_contentCount (getSessionContext sid (addContents calls st)) =
          ctx_contentCount (getSessionContext sid st) + length (entries_for sid calls)"
    by (auto simp: slice_last_short)
  then show ?thesis by (simp add: length_slice_last)
qed

text \<open>
  Claim C10. When no session in the stored list has the given id,
  \<open>addContentToSession\<close> returns null and the store it leaves is the store it found:
  the session list is not written and \<open>totalNotes\<close> is not incremented.
\<close>

theorem addContent_unknown_id:
  assumes "sid \<notin> session_id ` set (getSessions st)"
  shows "addContentToSession sid ttl summ now st = (None, st)"
proof -
  have "find (\<lambda>s. session_id s = sid) (getSessions st) = None"
    using assms by (auto simp: find_None_iff)
  then show ?thesis
    by (simp add: addContentToSession_def findIndex_None [symmetric])
qed

section \<open>Properties of the codecs\<close>

text \<open>\<open>atob\<close> undoes \<open>btoa\<close> on the binary string of any byte sequence.\<close>

lemma octets_sextets: "\<forall>x\<in>set bs. x < 256 \<Longrightarrow> octets (sextets bs) = bs"
proof (induction bs rule: sextets.induct)
  case 1
  then show ?case by simp
next
  case (2 a)
  then show ?case by simp
next
  case (3 a b)
  then have "b < 256" by simp
  then have "b div 16 < 16" by simp
  then show ?case by simp
next
  case (4 a b c r)
  then have "b < 256" "c < 256" by simp_all
  then have "b div 16 < 16" "c div 64 < 4" by simp_all
  with 4 show ?case by simp
qed

lemma sextets_bound: "\<forall>x\<in>set bs. x < 256 \<Longrightarrow> \<forall>v\<in>set (sextets bs). v < 64"
proof (induction bs rule: sextets.induct)
  case (3 a b)
  then have "a < 256" "b < 256" by simp_all
  then show ?case by (auto; arith)
next
  case (4 a b c r)
  then have "a < 256" "b < 256" "c < 256" by simp_all
  with 4 show ?case by (auto; arith)
qed (auto; arith)+

lemma length_sextets:
  "length (sextets bs) = 4 * (length bs div 3) + (if length bs mod 3 = 0 then 0 else length bs mod 3 + 1)"
proof (induction bs rule: sextets.induct)
  case (4 a b c r)
  have "(3 + length r) div 3 = Suc (length r div 3)" "(3 + length r) mod 3 = length r mod 3"
    by simp_all
  with 4 show ?case by simp
qed simp_all

lemma index_of_nth: "distinct xs \<Longrightarrow> n < length xs \<Longrightarrow> index_of (xs ! n) xs = Some n"
proof (induction xs arbitrary: n)
  case Nil
  then show ?case by simp
next
  case (Cons x xs)
  then show ?case by (cases n) auto
qed

lemma distinct_b64chars: "distinct b64chars" by (simp add: b64chars_def)
lemma length_b64chars: "length b64chars = 64" by (simp add: b64chars_def)

lemma index_b64char: "n < 64 \<Longrightarrow> index_of (b64char n) b64chars = Some n"
  by (simp add: b64char_def index_of_nth distinct_b64chars length_b64chars)

lemma those_indices_map: "\<forall>v\<in>set vs. v < 64 \<Longrightarrow> those_indices (map b64char vs) = Some vs"
  by (induction vs) (simp_all add: index_b64char)

lemma b64chars_plain: "c \<in> set b64chars \<Longrightarrow> \<not> ascii_whitespace c \<and> c \<noteq> CHR ''=''"
  by (auto simp: b64chars_def ascii_whitespace_def)

lemma b64char_plain: "n < 64 \<Longrightarrow> \<not> ascii_whitespace (b64char n) \<and> b64char n \<noteq> CHR ''=''"
  by (rule b64chars_plain) (simp add: b64char_def length_b64chars)


lemma strip_padding_body:
  assumes "\<forall>c\<in>set body. c \<noteq> CHR ''=''" and "k \<le> 2"
  shows "strip_padding (body @ replicate k (CHR ''='')) = body"
proof -
  have last: "rev body = [] \<or> (\<exists>c r. rev body = c # r \<and> c \<noteq> CHR ''='')"
  proof (cases "rev body")
    case Nil
    then show ?thesis by simp
  next
    case (Cons c r)
    then have "c \<in> set (rev body)" by simp
    then have "c \<in> set body" by simp
    with assms(1) Cons show ?thesis by blast
  qed
  from assms(2) consider "k = 0" | "k = 1" | "k = 2" by arith
  then show ?thesis
  proof cases
    case 1
    with last show ?thesis by (auto simp: strip_padding_def Let_def take_Suc_conv_app_nth numeral_2_eq_2 split: list.splits)
  next
    case 2
    with last show ?thesis
      by (auto simp: strip_padding_def Let_def numeral_2_eq_2)
  next
    case 3
    then have "replicate k (CHR ''='') = [CHR ''='', CHR ''='']" by (simp add: numeral_2_eq_2)
    then show ?thesis by (simp add: strip_padding_def)
  qed
qed

lemma atob_arrayBufferToBase64: "atob (arrayBufferToBase64 buffer) = Inr (map unat buffer)"
proof -
  let ?bs = "map unat buffer"
  let ?body = "map b64char (sextets ?bs)"
  let ?k = "(3 - length buffer mod 3) mod 3"
  have small: "\<forall>x\<in>set ?bs. x < 256"
  proof
    fix x assume "x \<in> set ?bs"
    then obtain w :: "8 word" where "x = unat w" by auto
    then show "x < 256" using unsigned_less [of w, where 'a = nat] by simp
  qed
  have six: "\<forall>v\<in>set (sextets ?bs). v < 64" by (rule sextets_bound [OF small])
  have plain: "\<forall>c\<in>set ?body. \<not> ascii_whitespace c \<and> c \<noteq> CHR ''=''"
    using six b64char_plain by auto
  have nows: "filter (\<lambda>c. \<not> ascii_whitespace c) (arrayBufferToBase64 buffer) = arrayBufferToBase64 buffer"
    using plain by (auto simp: arrayBufferToBase64_def ascii_whitespace_def filter_id_conv)
  have len_body: "length ?body = 4 * (length buffer div 3) + (if length buffer mod 3 = 0 then 0 else length buffer mod 3 + 1)"
    by (simp add: length_sextets)
  have m3: "length buffer mod 3 = 0 \<or> length buffer mod 3 = 1 \<or> length buffer mod 3 = 2" by arith
  have len4: "length (arrayBufferToBase64 buffer) mod 4 = 0"
    using m3 by (auto simp: arrayBufferToBase64_def length_sextets)
  have k2: "?k \<le> 2" by arith
  have strip: "strip_padding (arrayBufferToBase64 buffer) = ?body"
    unfolding arrayBufferToBase64_def using plain k2 by (intro strip_padding_body) auto
  have not1: "length ?body mod 4 \<noteq> 1"
    using m3 by (auto simp: length_sextets)
  have idx: "those_indices ?body = Some (sextets ?bs)" by (rule those_indices_map [OF six])
  show ?thesis
    unfolding atob_def Let_def nows using len4 strip not1 idx octets_sextets [OF small]
    by simp
qed

lemma base64_roundtrip: "base64ToArrayBuffer (arrayBufferToBase64 buffer) = Inr buffer"
proof -
  have "map (\<lambda>x. of_nat (unat x)) buffer = buffer" by (induction buffer) simp_all
  then show ?thesis
    by (simp add: base64ToArrayBuffer_def atob_arrayBufferToBase64 comp_def)
qed

lemma arrayBufferToBase64_inj:
  assumes "arrayBufferToBase64 a = arrayBufferToBase64 b"
  shows "a = b"
proof -
  have "Inr a = base64ToArrayBuffer (arrayBufferToBase64 a)" by (simp only: base64_roundtrip)
  also have "\<dots> = base64ToArrayBuffer (arrayBufferToBase64 b)" by (simp only: assms)
  also have "\<dots> = Inr b" by (simp only: base64_roundtrip)
  finally show ?thesis by simp
qed

section \<open>Properties of CryptoUtils and of the encrypted entries\<close>

lemma key_cached:
  "getOrCreateMasterKey g w = (Inr k, w1) \<Longrightarrow> encryptionKey w1 = Some k"
  by (auto simp: getOrCreateMasterKey_def split: option.splits sum.splits if_splits)

lemma key_reused:
  "encryptionKey w = Some k \<Longrightarrow> getOrCreateMasterKey g w = (Inr k, w)"
  by (simp add: getOrCreateMasterKey_def)

lemma encrypt_result:
  assumes "getOrCreateMasterKey g w = (Inr k, w1)"
  shows "encrypt P g n v w =
           (Inr \<lparr>iv = arrayBufferToBase64 n,
                 data = arrayBufferToBase64
                          (aes_gcm_encrypt P k n (TextEncoder_encode (json_stringify P v)))\<rparr>, w1)"
  using assms by (simp add: encrypt_def)

text \<open>
  Claim C1. Let the cipher be correct and let the JSON text of \<open>v\<close> survive the
  platform's codecs. Whenever the master key can be obtained (it is cached, or the
  stored one imports, or none is stored and one is generated), \<open>encrypt\<close> returns a
  blob, and \<open>decrypt\<close> of that blob in the state \<open>encrypt\<close> left returns \<open>v\<close>: the IV and
  the ciphertext come back from their base64 text unchanged and the key is the same.
\<close>

theorem decrypt_encrypt:
  assumes "cipher_correct P" and "serialises P v"
      and "getOrCreateMasterKey g w = (Inr k, w1)"
  shows "\<exists>blob. encrypt P g n v w = (Inr blob, w1) \<and> decrypt P g' blob w1 = (Inr v, w1)"
proof -
  let ?blob = "\<lparr>iv = arrayBufferToBase64 n,
                 data = arrayBufferToBase64
                          (aes_gcm_encrypt P k n (TextEncoder_encode (json_stringify P v)))\<rparr>"
  have e: "encrypt P g n v w = (Inr ?blob, w1)" by (rule encrypt_result [OF assms(3)])
  have k: "getOrCreateMasterKey g' w1 = (Inr k, w1)"
    by (rule key_reused [OF key_cached [OF assms(3)]])
  have c: "aes_gcm_decrypt P k n (aes_gcm_encrypt P k n (TextEncoder_encode (json_stringify P v)))
             = Some (TextEncoder_encode (json_stringify P v))"
    using assms(1) by (simp add: cipher_correct_def)
  have "decrypt P g' ?blob w1 = (Inr v, w1)"
    using assms(2) by (simp add: decrypt_def k base64_roundtrip c serialises_def)
  with e show ?thesis by blast
qed

text \<open>
  The same holds across a lock: \<open>clearKey\<close> drops the key from memory, and the next
  \<open>decrypt\<close> imports the key the first use had generated and stored.
\<close>

lemma decrypt_after_lock:
  assumes "cipher_correct P" and "serialises P v" and "length g = 32"
      and "encryptionKey w = None" and "keyPromise w = None" and "\<not> truthy_string (masterKey w)"
      and "encrypt P g n v w = (Inr blob, w1)"
  shows "decrypt P g' blob (clearKey w1) = (Inr v, w1)"
proof -
  have k: "getOrCreateMasterKey g w =
             (Inr g, w\<lparr>encryptionKey := Some g, masterKey := Some (arrayBufferToBase64 g)\<rparr>)"
    using assms(4-6) by (simp add: getOrCreateMasterKey_def)
  from assms(7) encrypt_result [OF k, of P n v]
  have w1: "w1 = w\<lparr>encryptionKey := Some g, masterKey := Some (arrayBufferToBase64 g)\<rparr>"
    and blob: "blob = \<lparr>iv = arrayBufferToBase64 n,
                 data = arrayBufferToBase64
                          (aes_gcm_encrypt P g n (TextEncoder_encode (json_stringify P v)))\<rparr>"
    by simp_all
  have ne: "arrayBufferToBase64 g \<noteq> []"
    using assms(3) by (cases g) (auto simp: arrayBufferToBase64_def split: list.splits)
  have k': "getOrCreateMasterKey g' (clearKey w1) = (Inr g, w1)"
    using assms(3,5) ne
    by (simp add: getOrCreateMasterKey_def clearKey_def w1 truthy_string_def base64_roundtrip
          importKey_def)
  have c: "aes_gcm_decrypt P g n (aes_gcm_encrypt P g n (TextEncoder_encode (json_stringify P v)))
             = Some (TextEncoder_encode (json_stringify P v))"
    using assms(1) by (simp add: cipher_correct_def)
  show ?thesis
    using assms(2) by (simp add: decrypt_def k' blob base64_roundtrip c serialises_def)
qed

text \<open>
  A sequence of calls that starts where the master key can be obtained: every call
  returns a blob, made from its own draw and its own value under that one key.
\<close>

lemma encrypt_all_results:
  assumes "getOrCreateMasterKey g w = (Inr k, w1)"
  shows "fst (encrypt_all P g calls w) =
           map (\<lambda>(n, v). Inr \<lparr>iv = arrayBufferToBase64 n,
                                 data = arrayBufferToBase64
                                   (aes_gcm_encrypt P k n (TextEncoder_encode (json_stringify P v)))\<rparr>)
             calls"
  using assms
proof (induction calls arbitrary: w w1)
  case Nil
  then show ?case by simp
next
  case (Cons c calls)
  obtain n v where c: "c = (n, v)" by (cases c)
  have k1: "getOrCreateMasterKey g w1 = (Inr k, w1)"
    by (rule key_reused [OF key_cached [OF Cons.prems]])
  show ?case
    using Cons.IH [OF k1] encrypt_result [OF Cons.prems, of P n v]
    by (auto simp: c split: prod.splits)
qed

text \<open>
  Claim C3, as the code has it. Take any sequence of \<open>encrypt\<close> calls that starts
  where the master key can be obtained, each call with the twelve bytes
  \<open>crypto.getRandomValues\<close> returns to it. Every call returns a blob; its IV is the
  base64 text of the call's own draw and its data the base64 text of the cipher's output
  for the UTF-8 JSON text of the value under the master key and that draw. So two calls
  have the same IV exactly when their draws are the same: the code draws anew on every
  call and keeps no record of the IVs it used. Two calls whose draws differ have
  different ciphertext bytes for the same value (the cipher separating 12-byte IVs);
  two calls with the same draw and the same value return the same blob.
\<close>

theorem iv_is_the_draw:
  assumes "getOrCreateMasterKey g w = (Inr k, w1)"
      and "i < length calls" and "j < length calls"
  shows "\<exists>bi bj.
           fst (encrypt_all P g calls w) ! i = Inr bi \<and>
           fst (encrypt_all P g calls w) ! j = Inr bj \<and>
           base64ToArrayBuffer (iv bi) = Inr (fst (calls ! i)) \<and>
           base64ToArrayBuffer (data bi) =
             Inr (aes_gcm_encrypt P k (fst (calls ! i))
                    (TextEncoder_encode (json_stringify P (snd (calls ! i))))) \<and>
           (iv bi = iv bj \<longleftrightarrow> fst (calls ! i) = fst (calls ! j)) \<and>
           (nonce_separates P \<and> length (fst (calls ! i)) = 12 \<and> length (fst (calls ! j)) = 12 \<and>
            fst (calls ! i) \<noteq> fst (calls ! j) \<and> snd (calls ! i) = snd (calls ! j) \<longrightarrow>
              data bi \<noteq> data bj) \<and>
           (fst (calls ! i) = fst (calls ! j) \<and> snd (calls ! i) = snd (calls ! j) \<longrightarrow>
              bi = bj)"
proof -
  let ?blob = "\<lambda>(n, v). \<lparr>iv = arrayBufferToBase64 n,
                           data = arrayBufferToBase64
                             (aes_gcm_encrypt P k n (TextEncoder_encode (json_stringify P v)))\<rparr>"
  obtain ni vi where ci: "calls ! i = (ni, vi)" by (cases "calls ! i")
  obtain nj vj where cj: "calls ! j = (nj, vj)" by (cases "calls ! j")
  have all: "fst (encrypt_all P g calls w) = map (\<lambda>c. Inr (?blob c)) calls"
    using encrypt_all_results [OF assms(1), of P calls] by (simp add: case_prod_unfold)
  have ri: "fst (encrypt_all P g calls w) ! i = Inr (?blob (ni, vi))"
    using assms(2) ci by (simp add: all)
  have rj: "fst (encrypt_all P g calls w) ! j = Inr (?blob (nj, vj))"
    using assms(3) cj by (simp add: all)
  have iv_eq: "iv (?blob (ni, vi)) = iv (?blob (nj, vj)) \<longleftrightarrow> ni = nj"
    using arrayBufferToBase64_inj by auto
  have sep: "nonce_separates P \<and> length ni = 12 \<and> length nj = 12 \<and> ni \<noteq> nj \<and> vi = vj \<longrightarrow>
             data (?blob (ni, vi)) \<noteq> data (?blob (nj, vj))"
  proof (intro impI)
    assume h: "nonce_separates P \<and> length ni = 12 \<and> length nj = 12 \<and> ni \<noteq> nj \<and> vi = vj"
    then have "aes_gcm_encrypt P k ni (TextEncoder_encode (json_stringify P vi)) \<noteq>
               aes_gcm_encrypt P k nj (TextEncoder_encode (json_stringify P vj))"
      by (simp add: nonce_separates_def)
    then show "data (?blob (ni, vi)) \<noteq> data (?blob (nj, vj))"
      using arrayBufferToBase64_inj by auto
  qed
  show ?thesis
    apply (rule exI [of _ "?blob (ni, vi)"])
    apply (rule exI [of _ "?blob (nj, vj)"])
    using ri rj iv_eq sep by (simp add: ci cj base64_roundtrip)
qed

text \<open>
  Nothing in \<open>encrypt\<close> prevents a draw from coming back. With the draw of twelve
  bytes \<open>01\<close> in both of two consecutive calls, for two different values under the one
  master key of the state after setup, both blobs carry the same IV.
\<close>

theorem repeated_draw_reuses_iv:
  "\<forall>P. \<exists>b1 b2.
     fst (encrypt_all P demo_key
            [(replicate 12 1, JStr ''first''), (replicate 12 1, JStr ''second'')]
            store_after_setup) = [Inr b1, Inr b2] \<and>
     iv b1 = iv b2 \<and>
     base64ToArrayBuffer (iv b1) = Inr (replicate 12 1)"
proof -
  have k: "getOrCreateMasterKey demo_key store_after_setup = (Inr demo_key, store_after_setup)"
    by (simp add: getOrCreateMasterKey_def store_after_setup_def)
  show ?thesis
    unfolding encrypt_all_results [OF k] by (simp add: base64_roundtrip)
qed

text \<open>
  Claim C2, as the code has it. \<open>getEncrypted\<close> never propagates an error. It returns
  null when no entry is stored under the namespaced name and also when the stored entry
  fails to decrypt (the \<open>catch\<close> block logs the error and returns null); otherwise it
  returns the decrypted value.
\<close>

theorem getEncrypted_swallows:
  "fst (getEncrypted P g key w) =
     Inr (case encrypted w key of
            None \<Rightarrow> JNull
          | Some b \<Rightarrow> (case fst (decrypt P g b w) of Inl e \<Rightarrow> JNull | Inr v \<Rightarrow> v))"
  by (simp add: getEncrypted_def split: option.splits prod.splits sum.splits)

lemma verify_after_hash:
  "verifyPassword P p2 (hashPassword P s p) =
     Inr (pbkdf2 P (TextEncoder_encode p2) s 100000 256 =
          pbkdf2 P (TextEncoder_encode p) s 100000 256)"
  using arrayBufferToBase64_inj
  by (auto simp: verifyPassword_def hashPassword_def Let_def base64_roundtrip)

text \<open>
  Claim C4, as the code has it. \<open>verifyPassword\<close> never throws on a record that
  \<open>hashPassword\<close> made. It recomputes PBKDF2 (100000 iterations, SHA-256, 256 bits) over
  the UTF-8 bytes of the supplied password with the stored salt and compares the whole
  output: the result is true for the password that was hashed, and for another password
  it is false exactly when the two derivations differ.
\<close>

theorem verifyPassword_hashPassword:
  "verifyPassword P p (hashPassword P s p) = Inr True \<and>
   verifyPassword P p2 (hashPassword P s p) =
     Inr (pbkdf2 P (TextEncoder_encode p2) s 100000 256 =
          pbkdf2 P (TextEncoder_encode p) s 100000 256)"
  by (simp add: verify_after_hash)

text \<open>
  The two one-unit strings U+D801 and U+D800 are different passwords, both lone
  surrogates; \<open>TextEncoder\<close> writes each as U+FFFD, so each verifies against the
  other's record, whatever the key derivation is.
\<close>

theorem surrogate_passwords_collide:
  "[0xD801 :: 16 word] \<noteq> [0xD800] \<and>
   (\<forall>P s. verifyPassword P [0xD801] (hashPassword P s [0xD800]) = Inr True)"
proof -
  have "TextEncoder_encode [0xD801] = TextEncoder_encode [0xD800]"
    by (simp add: TextEncoder_encode_def is_high_def is_low_def)
  then show ?thesis
    by (simp add: verify_after_hash)
qed

section \<open>Properties of the capture pipeline\<close>

lemma requests_append [simp]: "requests (xs @ ys) = requests xs @ requests ys"
  by (induction xs rule: requests.induct) simp_all

lemma page_creations_append [simp]: "page_creations (xs @ ys) = page_creations xs + page_creations ys"
  by (induction xs rule: page_creations.induct) simp_all

lemma appended_pages_append [simp]: "appended_pages (xs @ ys) = appended_pages xs @ appended_pages ys"
  by (induction xs rule: appended_pages.induct) simp_all

lemma written_blocks_append [simp]: "written_blocks (xs @ ys) = written_blocks xs @ written_blocks ys"
  by (induction xs rule: written_blocks.induct) simp_all

lemma requests_failed [simp]: "requests (failed e) = []"
  by (simp add: failed_def)

text \<open>
  Claim C7, as the code has it. When no active session id is stored, the capture ends
  with one error notification, makes no request to either service and leaves the state
  as it was. The notification is ``No active session. Please create one first.'' when
  setup is complete and the extension is unlocked; the two earlier checks come first, so
  it is ``Please complete setup first'' when setup is not complete and ``Extension is
  locked. Please unlock first.'' when the extension is locked.
\<close>

theorem no_session_no_network:
  assumes "\<not> truthy_string (activeSessionId w)"
  shows "requests (fst (handleMapping P E t u w)) = [] \<and>
         snd (handleMapping P E t u w) = w \<and>
         fst (handleMapping P E t u w) =
           [Notification
              (if \<not> truthy_bool (setupComplete w) then ''Please complete setup first''
               else if truthy_bool (isLocked w) then ''Extension is locked. Please unlock first.''
               else ''No active session. Please create one first.'')
              ''error'']"
  using assms by (simp add: handleMapping_def)





text \<open>The run after validation.\<close>

lemma validated_run:
  assumes "truthy_bool (setupComplete w)" and "\<not> truthy_bool (isLocked w)"
      and "activeSessionId w = Some a" and "a \<noteq> []"
      and "getEncrypted P (generated_key E) ''groqApiKey'' w = (Inr k, w1)" and "truthy_json k"
      and "getEncrypted P (generated_key E) ''notionCredentials'' w1 = (Inr c, w2)"
      and "truthy_json c"
  shows "handleMapping P E t u w =
     (case processWithGroq P k t (getSessionContext a w) (groq_reply E) of
        (Inl e, groq_events) \<Rightarrow>
          ([Notification ''Processing...'' ''info''] @ groq_events @ failed e, w2)
      | (Inr structuredData, groq_events) \<Rightarrow>
          (case store_capture P E c a (getSessionContext a w) t u structuredData w2 of
             (Inl e, store_events, w3) \<Rightarrow>
               ([Notification ''Processing...'' ''info''] @ groq_events @ store_events @ failed e, w3)
           | (Inr _, store_events, w3) \<Rightarrow>
               ([Notification ''Processing...'' ''info''] @ groq_events @ store_events @
                  [Notification ''Mapped successfully!'' ''success'', MAPPING_COMPLETE],
                snd (addContentToSession a (sectionTitle structuredData) (take 300 t) (clock E) w3))))"
  using assms by (simp add: handleMapping_def truthy_string_def Let_def)




text \<open>The structuring step contacts the structuring service only.\<close>

lemma groq_requests:
  "filter is_notion (requests (snd (processWithGroq P k t ctx r))) = [] \<and>
   page_creations (requests (snd (processWithGroq P k t ctx r))) = 0 \<and>
   appended_pages (requests (snd (processWithGroq P k t ctx r))) = [] \<and>
   written_blocks (requests (snd (processWithGroq P k t ctx r))) = []"
  by (simp add: processWithGroq_def Let_def split: sum.splits reply.splits groq_content.splits)

lemma groq_events:
  "\<forall>e. ErrorNotification e \<notin> set (snd (processWithGroq P k t ctx r))"
  by (simp add: processWithGroq_def Let_def split: sum.splits reply.splits groq_content.splits)


lemma schema_request_shape:
  "schema_request P c = Inr req \<Longrightarrow> \<exists>d tok. req = NotionGetDatabase d tok"
  by (auto simp: schema_request_def split: sum.splits)




lemma createNotionPage_returns:
  "fst (createNotionPage P E c nm t u ttl) = Inr page \<Longrightarrow> create_reply E = Ok page"
  by (simp add: createNotionPage_def split: sum.splits reply.splits)



text \<open>Every failure of the structuring call ends in the fallback.\<close>

lemma processWithGroq_failed:
  assumes "structuring_failed r" and "previous_content P (ctx_contents ctx) = Inr previous"
  shows "fst (processWithGroq P k t ctx r) = Inr (fallback t)"
  using assms
  by (simp add: processWithGroq_def structuring_failed_def Let_def
        split: sum.splits reply.splits groq_content.splits)

text \<open>On a text that neither starts nor ends with whitespace, the fields are the words.\<close>

lemma split_ws_words:
  "s \<noteq> [] \<Longrightarrow> \<not> is_space (last s) \<Longrightarrow>
   split_ws s = (if is_space (hd s) then [] # words_of s else words_of s)"
proof (induction s rule: split_ws.induct)
  case 1
  then show ?case by simp
next
  case (2 c)
  then show ?case by simp
next
  case (3 c d cs)
  then show ?case by (auto split: list.splits)
qed

lemma fallback_is_first_words:
  "t \<noteq> [] \<Longrightarrow> \<not> is_space (hd t) \<Longrightarrow> \<not> is_space (last t) \<Longrightarrow>
   fallback_title t = first_five_words_title t"
  by (simp add: fallback_title_def first_five_words_title_def split_ws_words)

text \<open>The children of the two writing requests.\<close>

lemma append_request_children:
  "append_request P E c p t u cs ttl = Inr req \<Longrightarrow>
   \<exists>x tok related src.
     connections_block P cs = Inr related \<and> source_line E u = Inr src \<and>
     req = NotionAppendChildren x tok
             ([Heading2 ttl] @ paragraphs t @ related @ src @ [Divider])"
  by (auto simp: append_request_def split: sum.splits)

lemma create_request_children:
  "create_request P E c nm t u ttl schema = Inr req \<Longrightarrow>
   \<exists>tok d tp src.
     source_line E u = Inr src \<and>
     req = NotionCreatePage tok d tp nm
             ([TableOfContents, Divider, Heading2 ttl] @ paragraphs t @ src @ [Divider])"
  by (auto simp: create_request_def split: sum.splits)

lemma paragraphs_plain:
  "filter is_heading (paragraphs t) = []" "filter is_toggle (paragraphs t) = []"
  by (auto simp: paragraphs_def filter_empty_conv)

lemma source_line_plain:
  "source_line E u = Inr src \<Longrightarrow> filter is_heading src = [] \<and> filter is_toggle src = []"
  by (auto simp: source_line_def filter_empty_conv split: option.splits if_splits)

lemma connections_block_plain:
  "connections_block P cs = Inr related \<Longrightarrow>
   filter is_heading related = [] \<and> (cs = JArr [] \<longrightarrow> related = [])"
  by (auto simp: connections_block_def split: json.splits sum.splits if_splits)

text \<open>
  A storing step that succeeds made no error notification and wrote one block set,
  whose only heading is the section title and which has no connections block when the
  connections are the empty list.
\<close>

lemma store_capture_success:
  assumes "store_capture P E c a ctx t u sd w = (Inr (), evs, w')"
  shows "(\<forall>e. ErrorNotification e \<notin> set evs) \<and>
         (\<exists>children. written_blocks (requests evs) = [children] \<and>
            filter is_heading children = [Heading2 (sectionTitle sd)] \<and>
            (connections sd = JArr [] \<longrightarrow> filter is_toggle children = []))"
proof (cases "existing_page w")
  case (Some p)
  from assms Some obtain req where
    rq: "append_request P E c p t u (connections sd) (sectionTitle sd) = Inr req" and
    evs: "evs = [Fetch req]"
    by (auto simp: store_capture_def appendToNotionPage_def split: sum.splits reply.splits)
  from append_request_children [OF rq] obtain x tok related src where
    b: "connections_block P (connections sd) = Inr related" "source_line E u = Inr src"
       "req = NotionAppendChildren x tok
                ([Heading2 (sectionTitle sd)] @ paragraphs t @ related @ src @ [Divider])"
    by blast
  show ?thesis
    using connections_block_plain [OF b(1)] source_line_plain [OF b(2)]
    by (simp add: evs b(3) paragraphs_plain)
next
  case None
  from assms None obtain get_schema schema create where
    rq: "schema_request P c = Inr get_schema"
        "create_request P E c (sessionName ctx) t u (sectionTitle sd) schema = Inr create" and
    evs: "evs = [Fetch get_schema, Fetch create]"
    by (auto simp: store_capture_def createNotionPage_def
          split: sum.splits reply.splits if_splits)
  from schema_request_shape [OF rq(1)] obtain d tok where
    g: "get_schema = NotionGetDatabase d tok" by blast
  from create_request_children [OF rq(2)] obtain tok' d' tp src where
    b: "source_line E u = Inr src"
       "create = NotionCreatePage tok' d' tp (sessionName ctx)
                   ([TableOfContents, Divider, Heading2 (sectionTitle sd)] @ paragraphs t @
                    src @ [Divider])"
    by blast
  show ?thesis
    using source_line_plain [OF b(1)] by (simp add: evs g b(2) paragraphs_plain)
qed

text \<open>
  What the code does when the structuring call fails. Let the capture pass
  validation, let the prompt be built and let the storing step succeed. Then the capture
  ends with the success notification, no error being notified; it writes exactly one
  block set, whose only heading is the fallback title and which has no connections
  block; and the entry it adds to the session carries the fallback title. The fallback
  title is the first five fields of the text split at whitespace runs, joined by single
  spaces, followed by \<open>...\<close>; these are the first five words when the text neither
  starts nor ends with whitespace.
\<close>

lemma structuring_failure_falls_back:
  assumes "structuring_failed (groq_reply E)"
      and "truthy_bool (setupComplete w)" and "\<not> truthy_bool (isLocked w)"
      and "activeSessionId w = Some a" and "a \<noteq> []"
      and "getEncrypted P (generated_key E) ''groqApiKey'' w = (Inr k, w1)" and "truthy_json k"
      and "getEncrypted P (generated_key E) ''notionCredentials'' w1 = (Inr c, w2)"
      and "truthy_json c"
      and "previous_content P (ctx_contents (getSessionContext a w)) = Inr previous"
      and "store_capture P E c a (getSessionContext a w) t u (fallback t) w2 = (Inr (), evs, w3)"
  shows "(\<exists>es. fst (handleMapping P E t u w) =
                  es @ [Notification ''Mapped successfully!'' ''success'', MAPPING_COMPLETE] \<and>
               (\<forall>e. ErrorNotification e \<notin> set es)) \<and>
         (\<exists>children.
            written_blocks (requests (fst (handleMapping P E t u w))) = [children] \<and>
            filter is_heading children = [Heading2 (JStr (fallback_title t))] \<and>
            filter is_toggle children = []) \<and>
         snd (handleMapping P E t u w) =
           snd (addContentToSession a (JStr (fallback_title t)) (take 300 t) (clock E) w3) \<and>
         (t \<noteq> [] \<and> \<not> is_space (hd t) \<and> \<not> is_space (last t) \<longrightarrow>
            fallback_title t = first_five_words_title t)"
proof -
  let ?ctx = "getSessionContext a w"
  obtain r ge where g: "processWithGroq P k t ?ctx (groq_reply E) = (r, ge)"
    by (cases "processWithGroq P k t ?ctx (groq_reply E)")
  have r: "r = Inr (fallback t)"
    using processWithGroq_failed [OF assms(1,10), of k t] g by simp
  have ge: "written_blocks (requests ge) = []" "\<forall>e. ErrorNotification e \<notin> set ge"
    using groq_requests [of P k t ?ctx "groq_reply E"] groq_events [of P k t ?ctx "groq_reply E"] g
    by simp_all
  note run = validated_run [OF assms(2-9), of t u]
  have f: "fst (handleMapping P E t u w) =
             ([Notification ''Processing...'' ''info''] @ ge @ evs) @
             [Notification ''Mapped successfully!'' ''success'', MAPPING_COMPLETE]"
    and s: "snd (handleMapping P E t u w) =
             snd (addContentToSession a (JStr (fallback_title t)) (take 300 t) (clock E) w3)"
    by (simp_all add: run g r assms(11) [unfolded fallback_def] fallback_def)
  from store_capture_success [OF assms(11)] obtain children where
    ne: "\<forall>e. ErrorNotification e \<notin> set evs" and
    wb: "written_blocks (requests evs) = [children]"
        "filter is_heading children = [Heading2 (JStr (fallback_title t))]"
        "filter is_toggle children = []"
    by (auto simp: fallback_def)
  have c1: "\<exists>es. fst (handleMapping P E t u w) =
                  es @ [Notification ''Mapped successfully!'' ''success'', MAPPING_COMPLETE] \<and>
               (\<forall>e. ErrorNotification e \<notin> set es)"
  proof (intro exI conjI)
    show "fst (handleMapping P E t u w) =
             ([Notification ''Processing...'' ''info''] @ ge @ evs) @
             [Notification ''Mapped successfully!'' ''success'', MAPPING_COMPLETE]"
      by (rule f)
    show "\<forall>e. ErrorNotification e \<notin> set ([Notification ''Processing...'' ''info''] @ ge @ evs)"
      using ge(2) ne by simp
  qed
  have c2: "\<exists>children.
            written_blocks (requests (fst (handleMapping P E t u w))) = [children] \<and>
            filter is_heading children = [Heading2 (JStr (fallback_title t))] \<and>
            filter is_toggle children = []"
    using wb ge(1) by (simp add: f)
  have c4: "t \<noteq> [] \<and> \<not> is_space (hd t) \<and> \<not> is_space (last t) \<longrightarrow>
            fallback_title t = first_five_words_title t"
    using fallback_is_first_words by blast
  from c1 c2 s c4 show ?thesis by blast
qed

section \<open>Properties of overlapping key creation\<close>

text \<open>The invariant holds at the start and every piece of every call keeps it.\<close>

lemma single_flight_init: "single_flight gen (before_first_key n)"
  by (auto simp: single_flight_def before_first_key_def)

lemma set_update_in:
  "set xs \<subseteq> A \<Longrightarrow> x \<in> A \<Longrightarrow> set (xs[i := x]) \<subseteq> A"
  using set_update_subset_insert [of xs i x] by auto

lemma single_flight_cases:
  assumes "single_flight gen s"
  obtains
    (none) "creators s = []" "mem_key s = None" "key_promise s = None" "stored_key s = None"
           "set (callers s) \<subseteq> {Idle}"
  | (one) c where "creators s = [c]"
           "set (callers s) \<subseteq> {Idle, Initiator 0, Joined 0, Finished (Returned (Some (gen 0)))}"
proof (cases "creators s")
  case Nil
  with assms none show ?thesis by (simp add: single_flight_def)
next
  case (Cons c cs)
  with assms have "cs = []" by (cases cs) (simp_all add: single_flight_def)
  with Cons assms one show ?thesis by (simp add: single_flight_def)
qed

lemma single_flight_call:
  assumes "single_flight gen s"
  shows "single_flight gen (call i s)"
proof (cases "i < length (callers s) \<and> callers s ! i = Idle")
  case False
  then show ?thesis using assms by (auto simp: call_def)
next
  case True
  from assms show ?thesis
  proof (cases rule: single_flight_cases)
    case none
    from none(5) have "set ((callers s)[i := Initiator 0]) \<subseteq>
        {Idle, Initiator 0, Joined 0, Finished (Returned (Some (gen 0)))}"
      by (intro set_update_in) auto
    with none True show ?thesis
      by (simp add: single_flight_def call_def)
  next
    case (one c)
    note upd = set_update_in [OF one(2), of _ i]
    have u1: "set ((callers s)[i := Joined 0]) \<subseteq>
        {Idle, Initiator 0, Joined 0, Finished (Returned (Some (gen 0)))}"
      by (rule upd) simp
    have u2: "set ((callers s)[i := Finished (Returned (Some (gen 0)))]) \<subseteq>
        {Idle, Initiator 0, Joined 0, Finished (Returned (Some (gen 0)))}"
      by (rule upd) simp
    from assms one True u1 u2 show ?thesis
      by (cases c) (simp_all add: single_flight_def call_def)
  qed
qed

lemma single_flight_creator:
  assumes "single_flight gen s"
  shows "single_flight gen (creator_step gen j s)"
  using assms
proof (cases rule: single_flight_cases)
  case none
  with assms show ?thesis by (simp add: creator_step_def)
next
  case (one c)
  show ?thesis
  proof (cases "j = 0")
    case False
    with one assms show ?thesis by (simp add: creator_step_def)
  next
    case True
    with one assms show ?thesis
      by (cases c) (simp_all add: single_flight_def creator_step_def truthy_string_def)
  qed
qed

lemma single_flight_resume:
  assumes "single_flight gen s"
  shows "single_flight gen (resume i s)"
proof (cases "i < length (callers s)")
  case False
  then show ?thesis using assms by (simp add: resume_def)
next
  case True
  from assms show ?thesis
  proof (cases rule: single_flight_cases)
    case none
    with True have "callers s ! i = Idle"
      using nth_mem by fastforce
    with assms show ?thesis by (simp add: resume_def)
  next
    case (one c)
    from one(2) True have ci:
      "callers s ! i = Idle \<or> callers s ! i = Initiator 0 \<or> callers s ! i = Joined 0 \<or>
       callers s ! i = Finished (Returned (Some (gen 0)))"
      using nth_mem by fastforce
    have u: "set ((callers s)[i := Finished (Returned (Some (gen 0)))]) \<subseteq>
        {Idle, Initiator 0, Joined 0, Finished (Returned (Some (gen 0)))}"
      by (rule set_update_in [OF one(2)]) simp
    from ci show ?thesis
    proof (elim disjE)
      assume "callers s ! i = Idle"
      with assms show ?thesis by (simp add: resume_def)
    next
      assume "callers s ! i = Finished (Returned (Some (gen 0)))"
      with assms show ?thesis by (simp add: resume_def)
    next
      assume "callers s ! i = Initiator 0"
      with assms one True u show ?thesis
        by (cases c) (simp_all add: single_flight_def resume_def)
    next
      assume "callers s ! i = Joined 0"
      with assms one True u show ?thesis
        by (cases c) (simp_all add: single_flight_def resume_def)
    qed
  qed
qed

lemma single_flight_step: "single_flight gen s \<Longrightarrow> single_flight gen (step gen a s)"
  by (cases a) (simp_all add: single_flight_call single_flight_creator single_flight_resume)

lemma single_flight_run: "single_flight gen s \<Longrightarrow> single_flight gen (run gen sched s)"
  by (induction sched arbitrary: s) (simp_all add: single_flight_step)

lemma run_append: "run gen (xs @ ys) s = run gen ys (run gen xs s)"
  by (induction xs arbitrary: s) simp_all

lemma length_callers_step: "length (callers (step gen a s)) = length (callers s)"
  by (cases a)
     (auto simp: call_def creator_step_def resume_def
           split: option.splits creator.splits caller.splits sum.splits outcome.splits)

lemma length_callers_run: "length (callers (run gen sched s)) = length (callers s)"
  by (induction sched arbitrary: s) (simp_all add: length_callers_step)

lemma results_allowed:
  "set cs \<subseteq> {Idle, Initiator 0, Joined 0, Finished r} \<Longrightarrow> set (results cs) \<subseteq> {r}"
  by (induction cs rule: results.induct) auto

lemma started_update:
  "k < n \<Longrightarrow> (started k n)[k := (if k = 0 then Initiator 0 else Joined 0)] = started (Suc k) n"
  by (rule nth_equalityI) (auto simp: started_def nth_list_update)

lemma resumed_update:
  "k < n \<Longrightarrow> (resumed r k n)[k := Finished r] = resumed r (Suc k) n"
  by (rule nth_equalityI) (auto simp: resumed_def nth_list_update)

lemma calls_phase:
  "k \<le> n \<Longrightarrow>
   run gen (map Call [0..<k]) (before_first_key n) =
     \<lparr>mem_key = None, key_promise = (if k = 0 then None else Some 0),
      creators = (if k = 0 then [] else [Get_pending]), callers = started k n,
      stored_key = None\<rparr>"
proof (induction k)
  case 0
  have "started 0 n = replicate n Idle"
    by (simp add: started_def map_replicate_const)
  then show ?case by (simp add: before_first_key_def)
next
  case (Suc k)
  then have k: "k < n" by simp
  have idle: "started k n ! k = Idle" using k by (simp add: started_def)
  have len: "length (started k n) = n" by (simp add: started_def)
  from Suc show ?case
    using k idle len started_update [OF k]
    by (auto simp: run_append call_def)
qed

lemma creator_phase:
  "run gen [Creator 0, Creator 0, Creator 0, Creator 0]
     \<lparr>mem_key = None, key_promise = Some 0, creators = [Get_pending], callers = cs,
      stored_key = None\<rparr> =
   \<lparr>mem_key = Some (gen 0), key_promise = Some 0,
    creators = [Settled (Returned (Some (gen 0)))], callers = cs,
    stored_key = Some (arrayBufferToBase64 (gen 0))\<rparr>"
  by (simp add: creator_step_def truthy_string_def)

lemma resumes_phase:
  "k \<le> n \<Longrightarrow>
   run gen (map Resume [0..<k])
     \<lparr>mem_key = m, key_promise = Some 0, creators = [Settled (Returned r)],
      callers = resumed (Returned r) 0 n, stored_key = st\<rparr> =
     \<lparr>mem_key = m, key_promise = (if k = 0 then Some 0 else None),
      creators = [Settled (Returned r)], callers = resumed (Returned r) k n, stored_key = st\<rparr>"
proof (induction k)
  case 0
  then show ?case by simp
next
  case (Suc k)
  then have k: "k < n" by simp
  have at: "resumed (Returned r) k n ! k = (if k = 0 then Initiator 0 else Joined 0)"
    using k by (simp add: resumed_def)
  have len: "length (resumed (Returned r) k n) = n" by (simp add: resumed_def)
  from Suc show ?case
    using k at len resumed_update [OF k, of "Returned r"]
    by (auto simp: run_append resume_def)
qed

lemma all_calls_finish:
  "callers (run gen (all_then_resume n) (before_first_key n)) =
     replicate n (Finished (Returned (Some (gen 0))))"
proof (cases "n = 0")
  case True
  then show ?thesis
    by (simp add: all_then_resume_def before_first_key_def creator_step_def)
next
  case False
  have s: "started n n = resumed (Returned (Some (gen 0))) 0 n"
    by (simp add: started_def resumed_def)
  have f: "resumed (Returned (Some (gen 0))) n n = replicate n (Finished (Returned (Some (gen 0))))"
    by (rule nth_equalityI) (simp_all add: resumed_def)
  let ?g = "Returned (Some (gen 0))"
  have 1: "run gen (map Call [0..<n]) (before_first_key n) =
        \<lparr>mem_key = None, key_promise = Some 0, creators = [Get_pending],
         callers = resumed ?g 0 n, stored_key = None\<rparr>"
    using False by (simp add: calls_phase s)
  have 2: "run gen [Creator 0, Creator 0, Creator 0, Creator 0]
        (run gen (map Call [0..<n]) (before_first_key n)) =
        \<lparr>mem_key = Some (gen 0), key_promise = Some 0, creators = [Settled ?g],
         callers = resumed ?g 0 n, stored_key = Some (arrayBufferToBase64 (gen 0))\<rparr>"
    unfolding 1 by (rule creator_phase)
  have 3: "run gen (map Resume [0..<n])
        (run gen [Creator 0, Creator 0, Creator 0, Creator 0]
          (run gen (map Call [0..<n]) (before_first_key n))) =
        \<lparr>mem_key = Some (gen 0), key_promise = None, creators = [Settled ?g],
         callers = resumed ?g n n, stored_key = Some (arrayBufferToBase64 (gen 0))\<rparr>"
    unfolding 2 using False by (simp add: resumes_phase)
  have "run gen (all_then_resume n) (before_first_key n) =
        run gen (map Resume [0..<n])
        (run gen [Creator 0, Creator 0, Creator 0, Creator 0]
          (run gen (map Call [0..<n]) (before_first_key n)))"
    unfolding all_then_resume_def by (simp only: run_append)
  then show ?thesis by (simp only: 3 f async_state.simps)
qed

text \<open>
  A single call run to its end does what \<open>getOrCreateMasterKey\<close> does when calls run one
  after the other: the same result, the same key in memory and in the store.
\<close>

lemma one_call_alone:
  assumes "keyPromise w = None"
  shows "callers (run gen [Call 0, Creator 0, Creator 0, Creator 0, Creator 0, Resume 0] (alone w)) =
           [Finished (outcome_of (fst (getOrCreateMasterKey (gen 0) w)))] \<and>
         mem_key (run gen [Call 0, Creator 0, Creator 0, Creator 0, Creator 0, Resume 0] (alone w)) =
           encryptionKey (snd (getOrCreateMasterKey (gen 0) w)) \<and>
         stored_key (run gen [Call 0, Creator 0, Creator 0, Creator 0, Creator 0, Resume 0] (alone w)) =
           masterKey (snd (getOrCreateMasterKey (gen 0) w))"
proof (cases "encryptionKey w")
  case (Some k)
  then show ?thesis
    by (simp add: alone_def call_def creator_step_def resume_def getOrCreateMasterKey_def
          outcome_of_def)
next
  case None
  show ?thesis
  proof (cases "truthy_string (masterKey w)")
    case False
    with None assms show ?thesis
      by (simp add: alone_def call_def creator_step_def resume_def getOrCreateMasterKey_def
            outcome_of_def)
  next
    case True
    then obtain stored where st: "masterKey w = Some stored"
      by (cases "masterKey w") (simp_all add: truthy_string_def)
    show ?thesis
    proof (cases "base64ToArrayBuffer stored")
      case (Inl e)
      with None assms True st show ?thesis
        by (simp add: alone_def call_def creator_step_def resume_def getOrCreateMasterKey_def
              outcome_of_def)
    next
      case (Inr keyData)
      with None assms True st show ?thesis
        by (cases "importKey keyData")
           (simp_all add: alone_def call_def creator_step_def resume_def
              getOrCreateMasterKey_def outcome_of_def)
    qed
  qed
qed

text \<open>
  Claim C9. Let \<open>n\<close> calls of \<open>getOrCreateMasterKey\<close> be made before a master key
  exists, their pieces interleaved in any order. At every moment at most one key creation
  has been started; every call that has returned has returned the key that creation
  generated; the store holds no key or that key; and in the schedule where all calls
  start before the creation proceeds, each of the \<open>n\<close> calls returns that key.
\<close>

theorem single_flight_key_creation:
  "length (creators (run gen sched (before_first_key n))) \<le> 1 \<and>
   set (results (callers (run gen sched (before_first_key n)))) \<subseteq> {Returned (Some (gen 0))} \<and>
   (stored_key (run gen sched (before_first_key n)) = None \<or>
    stored_key (run gen sched (before_first_key n)) = Some (arrayBufferToBase64 (gen 0))) \<and>
   length (callers (run gen sched (before_first_key n))) = n \<and>
   callers (run gen (all_then_resume n) (before_first_key n)) =
     replicate n (Finished (Returned (Some (gen 0))))"
proof -
  let ?s = "run gen sched (before_first_key n)"
  have inv: "single_flight gen ?s"
    by (rule single_flight_run [OF single_flight_init])
  have 1: "length (creators ?s) \<le> 1"
    using inv by (cases rule: single_flight_cases) simp_all
  have 2: "set (results (callers ?s)) \<subseteq> {Returned (Some (gen 0))}"
    using inv
  proof (cases rule: single_flight_cases)
    case none
    then have "set (callers ?s) \<subseteq>
        {Idle, Initiator 0, Joined 0, Finished (Returned (Some (gen 0)))}" by auto
    then show ?thesis by (rule results_allowed)
  next
    case (one c)
    then show ?thesis by (intro results_allowed)
  qed
  have 3: "stored_key ?s = None \<or> stored_key ?s = Some (arrayBufferToBase64 (gen 0))"
    using inv
  proof (cases rule: single_flight_cases)
    case none
    then show ?thesis by simp
  next
    case (one c)
    with inv show ?thesis by (cases c) (simp_all add: single_flight_def)
  qed
  have 4: "length (callers ?s) = n"
    by (simp add: length_callers_run before_first_key_def)
  from 1 2 3 4 all_calls_finish show ?thesis by blast
qed

section \<open>The claims at concrete inputs\<close>

lemma store_one_session_sessions:
  "getSessions store_one_session =
     [\<lparr>session_id = ''k0'', name = ''Research A'', createdAt = ''2024-01-01'',
       notionPageId = None, contents = Some [], contentCount = Some 0\<rparr>]"
  by (simp add: store_one_session_def store_after_setup_def createSession_def getSessions_def
        Let_def)

theorem addContent_unknown_id_witness:
  "addContentToSession ''k1'' (JStr ''Title'') ''Text'' ''2024-01-02'' store_one_session =
     (None, store_one_session)"
  using addContent_unknown_id [of "''k1''" store_one_session "JStr ''Title''" "''Text''" "''2024-01-02''"]
  by (simp add: store_one_session_sessions)

theorem contents_capped_count_exact_witness:
  "length (ctx_contents (getSessionContext ''k0''
     (addContents (replicate 31 (''k0'', JStr ''Title'', ''Text'', ''2024-01-02'')) store_one_session))) \<le> 30 \<and>
   ctx_contentCount (getSessionContext ''k0''
     (addContents (replicate 31 (''k0'', JStr ''Title'', ''Text'', ''2024-01-02'')) store_one_session)) = 31"
proof -
  have h1: "find (\<lambda>s. session_id s = ''k0'') (getSessions store_one_session) =
            Some (hd (getSessions store_one_session))"
    by (simp add: store_one_session_sessions)
  have h2: "length (ctx_contents (getSessionContext ''k0'' store_one_session)) \<le> 30"
    by (simp add: getSessionContext_def store_one_session_sessions)
  have c0: "ctx_contentCount (getSessionContext ''k0'' store_one_session) = 0"
    by (simp add: getSessionContext_def store_one_session_sessions)
  have n: "length (entries_for ''k0'' (replicate 31 (''k0'', JStr ''Title'', ''Text'', ''2024-01-02''))) = 31"
    by (simp add: entries_for_def)
  from contents_capped_count_exact
         [OF h1 h2, of "replicate 31 (''k0'', JStr ''Title'', ''Text'', ''2024-01-02'')"]
  have "length (ctx_contents (getSessionContext ''k0''
          (addContents (replicate 31 (''k0'', JStr ''Title'', ''Text'', ''2024-01-02'')) store_one_session))) \<le> 30"
       "ctx_contentCount (getSessionContext ''k0''
          (addContents (replicate 31 (''k0'', JStr ''Title'', ''Text'', ''2024-01-02'')) store_one_session)) =
        ctx_contentCount (getSessionContext ''k0'' store_one_session) +
        length (entries_for ''k0'' (replicate 31 (''k0'', JStr ''Title'', ''Text'', ''2024-01-02'')))"
    by blast+
  then show ?thesis unfolding c0 n by simp
qed

lemma demo_cipher_correct: "cipher_correct demo_platform"
  by (simp add: cipher_correct_def demo_platform_def)

lemma demo_nonce_separates: "nonce_separates demo_platform"
  by (simp add: nonce_separates_def demo_platform_def)

lemma demo_serialises:
  "serialises demo_platform (JStr ''gsk_demo'')"
  "serialises demo_platform (JObj [(''token'', JStr ''secret_demo''), (''databaseId'', JStr ''db1'')])"
  by (simp_all add: serialises_def demo_platform_def demo_values_def TextEncoder_encode_def
        utf8_def is_high_def is_low_def)

lemma getEncrypted_stored:
  assumes "cipher_correct P" and "serialises P v" and "encryptionKey w = Some k"
      and "encrypted w key =
             Some \<lparr>iv = arrayBufferToBase64 n,
                   data = arrayBufferToBase64
                            (aes_gcm_encrypt P k n (TextEncoder_encode (json_stringify P v)))\<rparr>"
  shows "getEncrypted P g key w = (Inr v, w)"
proof -
  have k: "getOrCreateMasterKey g w = (Inr k, w)" by (rule key_reused [OF assms(3)])
  have c: "aes_gcm_decrypt P k n (aes_gcm_encrypt P k n (TextEncoder_encode (json_stringify P v)))
             = Some (TextEncoder_encode (json_stringify P v))"
    using assms(1) by (simp add: cipher_correct_def)
  show ?thesis
    using assms(2,4) by (simp add: getEncrypted_def decrypt_def k base64_roundtrip c serialises_def)
qed

theorem decrypt_encrypt_witness:
  "\<exists>blob.
     encrypt demo_platform demo_key (replicate 12 1) (JStr ''gsk_demo'') fresh_install =
       (Inr blob, fresh_install\<lparr>encryptionKey := Some demo_key,
                                masterKey := Some (arrayBufferToBase64 demo_key)\<rparr>) \<and>
     decrypt demo_platform demo_key blob
       (fresh_install\<lparr>encryptionKey := Some demo_key,
                       masterKey := Some (arrayBufferToBase64 demo_key)\<rparr>) =
       (Inr (JStr ''gsk_demo''),
        fresh_install\<lparr>encryptionKey := Some demo_key,
                       masterKey := Some (arrayBufferToBase64 demo_key)\<rparr>)"
proof -
  have k: "getOrCreateMasterKey demo_key fresh_install =
             (Inr demo_key, fresh_install\<lparr>encryptionKey := Some demo_key,
                                           masterKey := Some (arrayBufferToBase64 demo_key)\<rparr>)"
    by (simp add: getOrCreateMasterKey_def fresh_install_def truthy_string_def)
  show ?thesis
    by (rule decrypt_encrypt [OF demo_cipher_correct demo_serialises(1) k])
qed

theorem iv_is_the_draw_witness:
  "\<exists>b1 b2.
     fst (encrypt_all demo_platform demo_key
            [(replicate 12 1, JStr ''gsk_demo''), (replicate 12 2, JStr ''gsk_demo'')]
            store_after_setup) ! 0 = Inr b1 \<and>
     fst (encrypt_all demo_platform demo_key
            [(replicate 12 1, JStr ''gsk_demo''), (replicate 12 2, JStr ''gsk_demo'')]
            store_after_setup) ! 1 = Inr b2 \<and>
     base64ToArrayBuffer (iv b1) = Inr (replicate 12 1) \<and>
     base64ToArrayBuffer (data b1) =
       Inr (aes_gcm_encrypt demo_platform demo_key (replicate 12 1)
              (TextEncoder_encode (json_stringify demo_platform (JStr ''gsk_demo'')))) \<and>
     iv b1 \<noteq> iv b2 \<and> data b1 \<noteq> data b2"
proof -
  let ?calls = "[(replicate 12 1, JStr ''gsk_demo''), (replicate 12 2, JStr ''gsk_demo'')] ::
                  (bytes \<times> json) list"
  have k: "getOrCreateMasterKey demo_key store_after_setup = (Inr demo_key, store_after_setup)"
    by (simp add: getOrCreateMasterKey_def store_after_setup_def)
  have l: "0 < length ?calls" "1 < length ?calls" by simp_all
  have c: "?calls ! 0 = (replicate 12 1, JStr ''gsk_demo'')"
          "?calls ! 1 = (replicate 12 2, JStr ''gsk_demo'')"
    by simp_all
  have d: "(replicate 12 1 :: bytes) \<noteq> replicate 12 2" by simp
  note th = iv_is_the_draw [OF k l, of demo_platform, unfolded c fst_conv snd_conv]
  from th obtain b1 b2 where
    r: "fst (encrypt_all demo_platform demo_key ?calls store_after_setup) ! 0 = Inr b1"
       "fst (encrypt_all demo_platform demo_key ?calls store_after_setup) ! 1 = Inr b2" and
    i: "base64ToArrayBuffer (iv b1) = Inr (replicate 12 1)" and
    m: "base64ToArrayBuffer (data b1) =
          Inr (aes_gcm_encrypt demo_platform demo_key (replicate 12 1)
                 (TextEncoder_encode (json_stringify demo_platform (JStr ''gsk_demo''))))" and
    e: "iv b1 = iv b2 \<longleftrightarrow> (replicate 12 1 :: bytes) = replicate 12 2" and
    s: "nonce_separates demo_platform \<and> length (replicate 12 1 :: bytes) = 12 \<and>
        length (replicate 12 2 :: bytes) = 12 \<and> (replicate 12 1 :: bytes) \<noteq> replicate 12 2 \<and>
        JStr ''gsk_demo'' = JStr ''gsk_demo'' \<longrightarrow> data b1 \<noteq> data b2"
    by blast
  have "iv b1 \<noteq> iv b2" using e d by simp
  moreover have "data b1 \<noteq> data b2" using s demo_nonce_separates d by simp
  ultimately show ?thesis using r i m by blast
qed

theorem decryption_failure_is_null:
  "\<forall>P g. encrypted store_bad_entry ''groqApiKey'' = Some \<lparr>iv = ''!'', data = ''AAAA''\<rparr> \<and>
          fst (decrypt P g \<lparr>iv = ''!'', data = ''AAAA''\<rparr> store_bad_entry) = Inl InvalidCharacterError \<and>
          fst (getEncrypted P g ''groqApiKey'' store_bad_entry) = Inr JNull \<and>
          fst (getEncrypted P g ''userData'' store_bad_entry) = Inr JNull"
proof -
  have k: "\<And>g. getOrCreateMasterKey g store_bad_entry = (Inr demo_key, store_bad_entry)"
    by (simp add: getOrCreateMasterKey_def store_bad_entry_def store_after_setup_def)
  have b: "base64ToArrayBuffer ''!'' = Inl InvalidCharacterError"
    by (simp add: base64ToArrayBuffer_def atob_def ascii_whitespace_def b64chars_def)
  have e: "encrypted store_bad_entry ''groqApiKey'' = Some \<lparr>iv = ''!'', data = ''AAAA''\<rparr>"
          "encrypted store_bad_entry ''userData'' = None"
    by (simp_all add: store_bad_entry_def store_after_setup_def)
  show ?thesis
    by (simp add: getEncrypted_def decrypt_def k b e)
qed

lemma store_one_session_eq:
  "store_one_session =
     store_after_setup\<lparr>sessions := Some [\<lparr>session_id = ''k0'', name = ''Research A'',
        createdAt = ''2024-01-01'', notionPageId = None, contents = Some [], contentCount = Some 0\<rparr>],
      activeSessionId := Some ''k0''\<rparr>"
  by (simp add: store_one_session_def createSession_def Let_def getSessions_def store_after_setup_def)

lemma store_with_page_eq:
  "store_with_page =
     store_after_setup\<lparr>sessions := Some [\<lparr>session_id = ''k0'', name = ''Research A'',
        createdAt = ''2024-01-01'', notionPageId = Some (JStr ''page1''), contents = Some [],
        contentCount = Some 0\<rparr>],
      activeSessionId := Some ''k0''\<rparr>"
  by (simp add: store_with_page_def store_one_session_eq updateSession_def Let_def getSessions_def)

lemma demo_secrets:
  assumes "encryptionKey w = Some demo_key" and "encrypted w = encrypted store_after_setup"
  shows "getEncrypted demo_platform g ''groqApiKey'' w = (Inr (JStr ''gsk_demo''), w)"
    and "getEncrypted demo_platform g ''notionCredentials'' w =
           (Inr (JObj [(''token'', JStr ''secret_demo''), (''databaseId'', JStr ''db1'')]), w)"
proof -
  have e: "encrypted w ''groqApiKey'' = Some (demo_blob (replicate 12 1) (JStr ''gsk_demo''))"
          "encrypted w ''notionCredentials'' =
             Some (demo_blob (replicate 12 2)
                    (JObj [(''token'', JStr ''secret_demo''), (''databaseId'', JStr ''db1'')]))"
    using assms(2) by (simp_all add: store_after_setup_def demo_values_def)
  show "getEncrypted demo_platform g ''groqApiKey'' w = (Inr (JStr ''gsk_demo''), w)"
    by (rule getEncrypted_stored [OF demo_cipher_correct demo_serialises(1) assms(1)])
       (simp add: e demo_blob_def)
  show "getEncrypted demo_platform g ''notionCredentials'' w =
           (Inr (JObj [(''token'', JStr ''secret_demo''), (''databaseId'', JStr ''db1'')]), w)"
    by (rule getEncrypted_stored [OF demo_cipher_correct demo_serialises(2) assms(1)])
       (simp add: e demo_blob_def)
qed

lemma one_session_facts:
  "truthy_bool (setupComplete store_one_session)" "\<not> truthy_bool (isLocked store_one_session)"
  "activeSessionId store_one_session = Some ''k0''"
  "encryptionKey store_one_session = Some demo_key"
  "encrypted store_one_session = encrypted store_after_setup"
  "getActiveSession store_one_session =
     Some \<lparr>session_id = ''k0'', name = ''Research A'', createdAt = ''2024-01-01'',
           notionPageId = None, contents = Some [], contentCount = Some 0\<rparr>"
  by (simp_all add: store_one_session_eq store_after_setup_def truthy_bool_def
        getActiveSession_def getSessions_def)


lemma demo_source_line:
  "source_line (demo_env\<lparr>groq_reply := r\<rparr>) (Some ''https://example.org/bio'') =
     Inr [SourceLine ''example.org'' ''https://example.org/bio'']"
  by (simp add: source_line_def demo_env_def)

theorem no_session_no_network_witness:
  "requests (fst (handleMapping demo_platform demo_env ''Some text'' None store_after_setup)) = [] \<and>
   snd (handleMapping demo_platform demo_env ''Some text'' None store_after_setup) = store_after_setup \<and>
   fst (handleMapping demo_platform demo_env ''Some text'' None store_after_setup) =
     [Notification ''No active session. Please create one first.'' ''error'']"
proof -
  have h: "\<not> truthy_string (activeSessionId store_after_setup)"
    by (simp add: store_after_setup_def truthy_string_def)
  have f: "truthy_bool (setupComplete store_after_setup)" "\<not> truthy_bool (isLocked store_after_setup)"
    by (simp_all add: store_after_setup_def truthy_bool_def)
  from no_session_no_network [OF h, of demo_platform demo_env "''Some text''" None] f
  show ?thesis by simp
qed

theorem setup_check_comes_first:
  "\<not> truthy_string (activeSessionId fresh_install) \<and>
   (\<forall>P E t u. fst (handleMapping P E t u fresh_install) =
       [Notification ''Please complete setup first'' ''error''])"
  by (simp add: handleMapping_def fresh_install_def truthy_string_def truthy_bool_def)

lemma demo_contexts:
  "getSessionContext ''k0'' store_one_session =
     \<lparr>sessionName = ''Research A'', ctx_notionPageId = None, ctx_contents = [],
      ctx_contentCount = 0\<rparr>"
  "getSessionContext ''k0'' store_with_page =
     \<lparr>sessionName = ''Research A'', ctx_notionPageId = Some (JStr ''page1''), ctx_contents = [],
      ctx_contentCount = 0\<rparr>"
  by (simp_all add: getSessionContext_def getSessions_def store_one_session_eq store_with_page_eq
        store_after_setup_def truthy_json_def)


lemma demo_requests:
  "schema_request demo_platform
     (JObj [(''token'', JStr ''secret_demo''), (''databaseId'', JStr ''db1'')]) =
     Inr (NotionGetDatabase ''db1'' ''secret_demo'')"
  "create_request demo_platform (demo_env\<lparr>groq_reply := r\<rparr>)
     (JObj [(''token'', JStr ''secret_demo''), (''databaseId'', JStr ''db1'')])
     nm t (Some ''https://example.org/bio'') ttl
     (JObj [(''properties'', JObj [(''Title'', JObj [(''type'', JStr ''title'')])])]) =
     Inr (NotionCreatePage ''secret_demo'' (Some (JStr ''db1'')) ''Title'' nm
            ([TableOfContents, Divider, Heading2 ttl] @ paragraphs t @
             [SourceLine ''example.org'' ''https://example.org/bio'', Divider]))"
  "append_request demo_platform (demo_env\<lparr>groq_reply := r\<rparr>)
     (JObj [(''token'', JStr ''secret_demo''), (''databaseId'', JStr ''db1'')])
     (JStr ''page1'') t (Some ''https://example.org/bio'') (JArr []) ttl =
     Inr (NotionAppendChildren ''page1'' ''secret_demo''
            ([Heading2 ttl] @ paragraphs t @
             [SourceLine ''example.org'' ''https://example.org/bio'', Divider]))"
  "append_request demo_platform (demo_env\<lparr>groq_reply := r\<rparr>)
     (JObj [(''token'', JStr ''secret_demo''), (''databaseId'', JStr ''db1'')])
     (JStr ''page1'') t (Some ''https://example.org/bio'') (JStr ''none'') ttl = Inl TypeError"
  "append_request demo_platform (demo_env\<lparr>groq_reply := r\<rparr>)
     (JObj [(''token'', JStr ''secret_demo''), (''databaseId'', JStr ''db1'')])
     (JStr ''page1'') t (Some ''https://example.org/bio'') (JArr [JNull]) ttl = Inl TypeError"
  by (simp_all add: schema_request_def create_request_def append_request_def title_property_def
        entries_def property_def text_of_opt_def text_of_def connections_block_def
        demo_source_line)

lemma demo_paragraph:
  "paragraphs ''Second capture'' = [Paragraph ''Second capture'']"
  "paragraphs '' a b c d e f'' = [Paragraph ''a b c d e f'']"
  by (simp_all add: paragraphs_def trim_def is_space_def)


text \<open>
  Claim C6, where the code departs from it: the capture of the text `` a b c d e f'',
  which starts with a space, while the structuring service answers HTTP 500, on the
  session ``Research A'' before its first capture. The capture succeeds and creates
  the page with one block set. The heading of that block set, and the title of the
  entry added to the session, is `` a b c d...'': the first field of the split is
  empty, so the title has four words after a space. The first five words of the text
  followed by an ellipsis are ``a b c d e...''.
\<close>

theorem leading_space_title:
  "written_blocks (requests (fst (handleMapping demo_platform demo_env_500
      '' a b c d e f'' (Some ''https://example.org/bio'') store_one_session))) =
     [[TableOfContents, Divider, Heading2 (JStr '' a b c d...''), Paragraph ''a b c d e f'',
       SourceLine ''example.org'' ''https://example.org/bio'', Divider]] \<and>
   map title (ctx_contents (getSessionContext ''k0'' (snd (handleMapping
      demo_platform demo_env_500 '' a b c d e f'' (Some ''https://example.org/bio'')
      store_one_session)))) = [JStr '' a b c d...''] \<and>
   last (fst (handleMapping demo_platform demo_env_500
      '' a b c d e f'' (Some ''https://example.org/bio'') store_one_session)) = MAPPING_COMPLETE \<and>
   first_five_words_title '' a b c d e f'' = ''a b c d e...''"
proof -
  let ?c = "JObj [(''token'', JStr ''secret_demo''), (''databaseId'', JStr ''db1'')]"
  let ?u = "Some ''https://example.org/bio''"
  let ?t = "'' a b c d e f''"
  let ?ctx = "getSessionContext ''k0'' store_one_session"
  have ne: "''k0'' \<noteq> []" by simp
  have tk: "truthy_json (JStr ''gsk_demo'')" "truthy_json ?c"
    by (simp_all add: truthy_json_def)
  have e5: "demo_env_500 = demo_env\<lparr>groq_reply := NotOk ''Internal Server Error''\<rparr>"
    by (simp add: demo_env_500_def)
  have gk: "generated_key demo_env_500 = demo_key" "clock demo_env_500 = ''2024-01-02''"
    by (simp_all add: demo_env_500_def demo_env_def)
  have rp: "schema_reply demo_env_500 =
              Ok (JObj [(''properties'', JObj [(''Title'', JObj [(''type'', JStr ''title'')])])])"
           "create_reply demo_env_500 = Ok (JObj [(''id'', JStr ''page1'')])"
    by (simp_all add: demo_env_500_def demo_env_def)
  have ft: "fallback_title ?t = '' a b c d...''"
    by (simp add: fallback_title_def is_space_def)
  have g: "processWithGroq demo_platform (JStr ''gsk_demo'') ?t ?ctx (groq_reply demo_env_500) =
             (Inr \<lparr>sectionTitle = JStr '' a b c d...'', connections = JArr []\<rparr>,
              [Fetch (GroqChat ''gsk_demo'' ''Research A'' [] ?t)])"
    by (simp add: processWithGroq_def demo_contexts text_of_def demo_env_500_def fallback_def ft)
  have ex: "existing_page store_one_session = None"
    by (simp add: existing_page_def one_session_facts(6))
  have cr: "createNotionPage demo_platform demo_env_500 ?c ''Research A'' ?t ?u
              (JStr '' a b c d...'') =
            (Inr (JObj [(''id'', JStr ''page1'')]),
             [Fetch (NotionGetDatabase ''db1'' ''secret_demo''),
              Fetch (NotionCreatePage ''secret_demo'' (Some (JStr ''db1'')) ''Title'' ''Research A''
                       [TableOfContents, Divider, Heading2 (JStr '' a b c d...''),
                        Paragraph ''a b c d e f'',
                        SourceLine ''example.org'' ''https://example.org/bio'', Divider])])"
    using demo_requests(2) [of "NotOk ''Internal Server Error''" "''Research A''" ?t
                               "JStr '' a b c d...''"]
    by (simp add: createNotionPage_def demo_requests(1) rp e5 [symmetric] demo_paragraph)
  have st: "store_capture demo_platform demo_env_500 ?c ''k0'' ?ctx ?t ?u
              \<lparr>sectionTitle = JStr '' a b c d...'', connections = JArr []\<rparr> store_one_session =
            (Inr (),
             [Fetch (NotionGetDatabase ''db1'' ''secret_demo''),
              Fetch (NotionCreatePage ''secret_demo'' (Some (JStr ''db1'')) ''Title'' ''Research A''
                       [TableOfContents, Divider, Heading2 (JStr '' a b c d...''),
                        Paragraph ''a b c d e f'',
                        SourceLine ''example.org'' ''https://example.org/bio'', Divider])],
             snd (updateSession ''k0'' (\<lambda>s. s\<lparr>notionPageId := Some (JStr ''page1'')\<rparr>)
                    store_one_session))"
    by (simp add: store_capture_def ex demo_contexts cr property_def)
  note run = validated_run
      [OF one_session_facts(1,2,3) ne
          demo_secrets(1) [OF one_session_facts(4,5)] tk(1)
          demo_secrets(2) [OF one_session_facts(4,5)] tk(2),
       of demo_env_500 ?t ?u, unfolded g st prod.case sum.case]
  have w: "written_blocks (requests (fst (handleMapping demo_platform demo_env_500 ?t ?u
             store_one_session))) =
     [[TableOfContents, Divider, Heading2 (JStr '' a b c d...''), Paragraph ''a b c d e f'',
       SourceLine ''example.org'' ''https://example.org/bio'', Divider]]"
    by (simp add: run)
  have l: "last (fst (handleMapping demo_platform demo_env_500 ?t ?u store_one_session)) =
             MAPPING_COMPLETE"
    by (simp add: run)
  have t: "map title (ctx_contents (getSessionContext ''k0'' (snd (handleMapping
             demo_platform demo_env_500 ?t ?u store_one_session)))) = [JStr '' a b c d...'']"
    unfolding run snd_conv
    by (simp add: gk store_one_session_eq store_after_setup_def updateSession_def
          addContentToSession_def getSessions_def getSessionContext_def Let_def)
  have f: "first_five_words_title ?t = ''a b c d e...''"
    by (simp add: first_five_words_title_def is_space_def)
  from w t l f show ?thesis by simp
qed

text \<open>
  Three overlapping calls: the second starts while the key generation is pending and
  joins the promise, the third starts after the key was assigned and returns it at once.
\<close>

theorem single_flight_key_creation_witness:
  "length (creators (run (\<lambda>j. replicate 32 (of_nat j))
      [Call 0, Creator 0, Call 1, Creator 0, Call 2, Creator 0, Creator 0, Resume 1, Resume 0]
      (before_first_key 3))) \<le> 1 \<and>
   results (callers (run (\<lambda>j. replicate 32 (of_nat j))
      [Call 0, Creator 0, Call 1, Creator 0, Call 2, Creator 0, Creator 0, Resume 1, Resume 0]
      (before_first_key 3))) =
     [Returned (Some (replicate 32 0)), Returned (Some (replicate 32 0)),
      Returned (Some (replicate 32 0))]"
proof -
  have "results (callers (run (\<lambda>j. replicate 32 (of_nat j))
      [Call 0, Creator 0, Call 1, Creator 0, Call 2, Creator 0, Creator 0, Resume 1, Resume 0]
      (before_first_key 3))) =
     [Returned (Some (replicate 32 0)), Returned (Some (replicate 32 0)),
      Returned (Some (replicate 32 0))]"
    by (simp add: before_first_key_def call_def creator_step_def resume_def truthy_string_def
          numeral_3_eq_3)
  with single_flight_key_creation
         [of "\<lambda>j. replicate 32 (of_nat j)"
             "[Call 0, Creator 0, Call 1, Creator 0, Call 2, Creator 0, Creator 0, Resume 1, Resume 0]"
             3]
  show ?thesis by simp
qed

end
